theory Spec2Isabelle
  imports Complex_Main "HOL-Library.Word"
begin

section \<open>Data model of \<open>ccs.cpp\<close>\<close>

text \<open>
  The embedding follows \<open>src/main/ccs.cpp\<close>. A value of the C++ types \<open>float\<close> and
  \<open>double\<close> is the real number it denotes. Where \<open>main\<close> computes a \<open>float\<close> from the
  command line (lines 322-323) the rounding to single precision is written out
  (\<open>binary32\<close> below). The signal-to-noise values of a read are \<open>float\<close> values of the
  input; its accuracy, a score out of 1000 (compare line 137), is taken to be a number
  that \<open>float\<close> holds exactly, so that the cast at line 463 leaves it as it is. The
  \<open>double\<close> quotients of the report are not rounded.
  \<open>size_t\<close> counters are natural numbers; \<open>int\<close> is a 32-bit word where the arithmetic
  of \<open>ThreadCount\<close> is concerned, and a mathematical integer where it is only compared
  for equality (hole numbers).
\<close>

text \<open>\<open>ReadGroupInfo\<close> of pbbam, restricted to the three getters \<open>VerifyChemistry\<close> reads.\<close>

record ReadGroupInfo =
  BindingKit :: string
  SequencingKit :: string
  BasecallerVersion :: string

text \<open>
  The result of \<open>read.SignalToNoise()\<close>: the four per-channel values of the \<open>sn\<close> tag, in
  the order A, C, G, T (the order in which \<open>Writer\<close> writes them back).
\<close>

record SNR =
  snrA :: real
  snrC :: real
  snrG :: real
  snrT :: real

text \<open>A record of the input: the getters of \<open>BamRecord\<close> that \<open>main\<close> calls on \<open>read\<close>.\<close>

record BamRecord =
  MovieName :: string
  HoleNumber :: int
  SignalToNoise :: SNR
  ReadGroup :: ReadGroupInfo
  ReadAccuracy :: real
  QueryStart :: int
  QueryEnd :: int
  Sequence :: string
  LocalContextFlags :: nat

text \<open>
  \<open>ReadId\<close>: the movie name is a \<open>shared_ptr<string>\<close> (\<open>None\<close> is the null pointer), the
  interval is present for a sub-read and absent for the identifier of a chunk.
\<close>

record ReadId =
  IdMovieName :: "string option"
  IdHoleNumber :: int
  IdInterval :: "(int \<times> int) option"

text \<open>\<open>Subread = ReadType<ReadId>\<close>, built by aggregate initialisation at lines 471-478.\<close>

record Subread =
  SubreadId :: ReadId
  Seq :: string
  Flags :: nat
  SubreadAccuracy :: real

text \<open>\<open>Chunk = ChunkType<ReadId, Subread>\<close>, built at lines 450-456.\<close>

record Chunk =
  ChunkId :: ReadId
  Reads :: "Subread list"
  ChunkSNR :: SNR

text \<open>
  The values \<open>main\<close> fixes before the loop and never changes: \<open>settings.MinPasses\<close>,
  \<open>minSnr\<close>, \<open>minReadScore\<close> (already multiplied by 1000) and the optional whitelist, of
  which only \<open>Contains(movieName, holeNumber)\<close> is used.
\<close>

record Params =
  MinPasses :: nat
  minSnr :: real
  minReadScore :: real
  whitelist :: "(string \<Rightarrow> int \<Rightarrow> bool) option"

text \<open>
  The parsed command line as \<open>main\<close> reads it (lines 320-327, 334, 362-363, 506): one
  field per option; \<open>MinPassesOpt\<close> is \<open>options.get(OptionNames::MinPasses)\<close> cast to \<open>int\<close>.
\<close>

record Options =
  ForceOutput :: bool
  PbIndex :: bool
  Zmws :: string
  MinSnr :: real
  MinReadScore :: real
  MinPassesOpt :: int
  ReportFile :: string
  NumThreads :: "32 word"
  LogFile :: string
  LogLevel :: string

text \<open>
  The mutable variables of the loop of \<open>main\<close> (lines 382-390 and 399-400). \<open>chunk\<close> is the
  vector behind the \<open>unique_ptr\<close>: the pointer is reset to a fresh vector right after each
  move (line 425), so it is never null where the loop tests it. \<open>submitted\<close> lists the
  vectors handed to \<open>workQueue.ProduceWith\<close>, oldest first.
\<close>

record State =
  chunk :: "Chunk list"
  movieNames :: "string \<rightharpoonup> string"
  holeNumber :: "int option"
  skipZmw :: bool
  poorSNR :: nat
  tooFewPasses :: nat
  submitted :: "Chunk list list"

section \<open>Thread count\<close>

text \<open>\<open>std::max(a, b)\<close> and \<open>std::min(a, b)\<close> on \<open>int\<close>, as the standard defines them.\<close>

definition max_int32 :: "32 word \<Rightarrow> 32 word \<Rightarrow> 32 word" where
  "max_int32 a b = (if a <s b then b else a)"

definition min_int32 :: "32 word \<Rightarrow> 32 word \<Rightarrow> 32 word" where
  "min_int32 a b = (if b <s a then b else a)"

text \<open>
  \<open>ThreadCount\<close> (lines 222-230). The first argument is the value of
  \<open>thread::hardware_concurrency()\<close>, an \<open>unsigned\<close> stored into \<open>const int m\<close> (the same 32
  bits); the result is the \<open>int\<close> converted to \<open>size_t\<close> (sign extension to 64 bits).
\<close>

definition ThreadCount :: "32 word \<Rightarrow> 32 word \<Rightarrow> 64 word" where
  "ThreadCount hardware_concurrency n =
     (let m = hardware_concurrency
      in if n <s 1 then scast (max_int32 1 (m + n)) else scast (min_int32 m n))"

section \<open>Single precision\<close>

text \<open>
  The conversion of a real number to \<open>float\<close> (IEEE 754 binary32, round to nearest, ties to
  even): a significand of 24 bits, normal exponents from -126 to 127, and below them the
  subnormal numbers, which are the multiples of \<open>2^-149\<close>. \<open>pow2 e\<close> is \<open>2^e\<close>; \<open>binade n a\<close>
  looks among the exponents below \<open>n - 125\<close> for the largest \<open>k\<close> with \<open>2^k \<le> a\<close> and
  stops at -126; \<open>round_even\<close> is the nearest integer, the even one of two that are equally
  near. A value beyond the largest finite \<open>float\<close>, which the machine rounds to infinity, is
  rounded here as if the exponent 127 went on.
\<close>

definition pow2 :: "int \<Rightarrow> real" where
  "pow2 e = (if 0 \<le> e then 2 ^ nat e else 1 / 2 ^ nat (- e))"

primrec binade :: "nat \<Rightarrow> real \<Rightarrow> int" where
  "binade 0 a = - 126"
| "binade (Suc n) a = (if pow2 (int n - 125) \<le> a then int n - 125 else binade n a)"

definition round_even :: "real \<Rightarrow> int" where
  "round_even y =
     (let f = \<lfloor>y\<rfloor>; d = y - of_int f
      in if d < 1 / 2 then f
         else if 1 / 2 < d then f + 1
         else if even f then f else f + 1)"

definition binary32 :: "real \<Rightarrow> real" where
  "binary32 x =
     (let q = pow2 (binade 253 \<bar>x\<bar> - 23)
      in of_int (round_even (x / q)) * q)"

section \<open>The chunk assembler: the loop of \<open>main\<close>\<close>

text \<open>
  \<open>VerifyChemistry\<close> (lines 266-281); \<open>substr(0, 3)\<close> is the prefix of at most three
  characters.
\<close>

definition VerifyChemistry :: "ReadGroupInfo \<Rightarrow> bool" where
  "VerifyChemistry readGroup =
     (let bcVer = take 3 (BasecallerVersion readGroup)
      in if BindingKit readGroup = ''100356300'' \<and>
            SequencingKit readGroup = ''100356200'' \<and>
            (bcVer = ''2.1'' \<or> bcVer = ''2.3'') then True
         else if BindingKit readGroup = ''100372700'' \<and>
            SequencingKit readGroup = ''100356200'' \<and>
            (bcVer = ''2.1'' \<or> bcVer = ''2.3'') then True
         else False)"

text \<open>\<open>*min_element(snr.begin(), snr.end())\<close> over the four channel values (line 441).\<close>

definition min_element :: "SNR \<Rightarrow> real" where
  "min_element snr = min (snrA snr) (min (snrC snr) (min (snrG snr) (snrT snr)))"

text \<open>The state before the first file (lines 382-390).\<close>

definition initState :: State where
  "initState = \<lparr>chunk = [], movieNames = Map.empty, holeNumber = None, skipZmw = False,
     poorSNR = 0, tooFewPasses = 0, submitted = []\<rparr>"

text \<open>Lines 399-400: \<open>holeNumber\<close> and \<open>skipZmw\<close> are declared anew inside the loop over files.\<close>

definition enterFile :: "State \<Rightarrow> State" where
  "enterFile st = st\<lparr>holeNumber := None, skipZmw := False\<rparr>"

text \<open>Lines 404-409: a movie name is entered into the registry when first seen.\<close>

definition registerMovie :: "string \<Rightarrow> State \<Rightarrow> State" where
  "registerMovie movieName st =
     (if movieNames st movieName = None
      then st\<lparr>movieNames := (movieNames st)(movieName \<mapsto> movieName)\<rparr>
      else st)"

text \<open>Line 411: the guard \<open>!holeNumber || *holeNumber != read.HoleNumber()\<close>.\<close>

definition isBoundary :: "State \<Rightarrow> BamRecord \<Rightarrow> bool" where
  "isBoundary st read =
     (case holeNumber st of None \<Rightarrow> True | Some h \<Rightarrow> h \<noteq> HoleNumber read)"

text \<open>Lines 413-420 (and again 483-490): the last chunk is dropped when it is too short.\<close>

definition discardShort :: "Params \<Rightarrow> State \<Rightarrow> State" where
  "discardShort p st =
     (if chunk st \<noteq> [] \<and> length (Reads (last (chunk st))) < MinPasses p
      then st\<lparr>tooFewPasses := tooFewPasses st + 1, chunk := butlast (chunk st)\<rparr>
      else st)"

text \<open>Line 325: \<open>const size_t chunkSize = 1\<close>.\<close>

definition chunkSize :: nat where
  "chunkSize = 1"

text \<open>Lines 422-426: a full vector is moved into the work queue and replaced by a fresh one.\<close>

definition submitFull :: "State \<Rightarrow> State" where
  "submitFull st =
     (if chunkSize \<le> length (chunk st)
      then st\<lparr>submitted := submitted st @ [chunk st], chunk := []\<rparr>
      else st)"

text \<open>
  Lines 428-457: the molecule-level filters for the read that opens a molecule, and the new
  chunk when all of them pass.
\<close>

definition startMolecule :: "Params \<Rightarrow> BamRecord \<Rightarrow> State \<Rightarrow> State" where
  "startMolecule p read st0 =
     (let movieName = MovieName read;
          st = st0\<lparr>holeNumber := Some (HoleNumber read)\<rparr>;
          snr = SignalToNoise read
      in if (case whitelist p of None \<Rightarrow> False
             | Some wl \<Rightarrow> \<not> wl movieName (HoleNumber read))
         then st\<lparr>skipZmw := True\<rparr>
         else if \<not> VerifyChemistry (ReadGroup read)
         then st\<lparr>skipZmw := True\<rparr>
         else if min_element snr < minSnr p
         then st\<lparr>poorSNR := poorSNR st + 1, skipZmw := True\<rparr>
         else st\<lparr>skipZmw := False,
                 chunk := chunk st @
                   [\<lparr>ChunkId = \<lparr>IdMovieName = movieNames st movieName,
                                IdHoleNumber = HoleNumber read, IdInterval = None\<rparr>,
                     Reads = [], ChunkSNR = snr\<rparr>]\<rparr>)"

text \<open>
  The \<open>Subread\<close> built at lines 472-478. \<open>*holeNumber\<close> is read from the state; at this
  point of the loop body it always holds a value (\<open>holeNumber_boundaryStep\<close> below).
\<close>

definition makeSubread :: "State \<Rightarrow> BamRecord \<Rightarrow> Subread" where
  "makeSubread st read =
     \<lparr>SubreadId = \<lparr>IdMovieName = movieNames st (MovieName read),
                   IdHoleNumber = the (holeNumber st),
                   IdInterval = Some (QueryStart read, QueryEnd read)\<rparr>,
      Seq = Sequence read, Flags = LocalContextFlags read,
      SubreadAccuracy = ReadAccuracy read\<rparr>"

text \<open>
  \<open>chunk->back().Reads.emplace_back(s)\<close>. On an empty vector \<open>back()\<close> is undefined in C++;
  the loop never gets there (\<open>loopState_back_defined\<close> below), and the model leaves the
  empty vector as it is.
\<close>

fun back_emplace :: "Subread \<Rightarrow> Chunk list \<Rightarrow> Chunk list" where
  "back_emplace s [] = []"
| "back_emplace s (c # cs) =
     butlast (c # cs) @ [(last (c # cs))\<lparr>Reads := Reads (last (c # cs)) @ [s]\<rparr>]"

text \<open>Lines 460-478: the per-read filter and the append to the current chunk.\<close>

definition admitRead :: "Params \<Rightarrow> BamRecord \<Rightarrow> State \<Rightarrow> State" where
  "admitRead p read st =
     (if skipZmw st then st
      else if ReadAccuracy read < minReadScore p then st
      else st\<lparr>chunk := back_emplace (makeSubread st read) (chunk st)\<rparr>)"

text \<open>
  Lines 404-458: the first half of the loop body, up to the end of the branch taken at a
  molecule boundary.
\<close>

definition boundaryStep :: "Params \<Rightarrow> State \<Rightarrow> BamRecord \<Rightarrow> State" where
  "boundaryStep p st0 read =
     (let st = registerMovie (MovieName read) st0
      in if isBoundary st read
         then startMolecule p read (submitFull (discardShort p st))
         else st)"

text \<open>Lines 402-479: the body of the loop over the reads of a file.\<close>

definition processRead :: "Params \<Rightarrow> State \<Rightarrow> BamRecord \<Rightarrow> State" where
  "processRead p st read = admitRead p read (boundaryStep p st read)"

text \<open>Lines 393-480: the loop over the reads of one file, and the loop over the files.\<close>

definition processFile :: "Params \<Rightarrow> State \<Rightarrow> BamRecord list \<Rightarrow> State" where
  "processFile p st query = foldl (processRead p) (enterFile st) query"

definition processFiles :: "Params \<Rightarrow> State \<Rightarrow> BamRecord list list \<Rightarrow> State" where
  "processFiles p st files = foldl (processFile p) st files"

text \<open>Lines 493-496: whatever is left is submitted; the moved-from pointer is not used again.\<close>

definition submitRest :: "State \<Rightarrow> State" where
  "submitRest st =
     (if chunk st \<noteq> []
      then st\<lparr>submitted := submitted st @ [chunk st], chunk := []\<rparr>
      else st)"

text \<open>Lines 482-496: the end of the stream.\<close>

definition finish :: "Params \<Rightarrow> State \<Rightarrow> State" where
  "finish p st = submitRest (discardShort p st)"

text \<open>The producer side of \<open>main\<close> from line 390 to line 496.\<close>

definition assemble :: "Params \<Rightarrow> BamRecord list list \<Rightarrow> State" where
  "assemble p files = finish p (processFiles p initState files)"

text \<open>
  Lines 322-323 and 333-338: the locals the loop reads, from the options. An option is the
  number written on the command line; \<open>minSnr\<close> is its conversion to \<open>float\<close>, and
  \<open>minReadScore\<close> is the \<open>float\<close> product of 1000 and the option converted to \<open>float\<close>.
  \<open>settings.MinPasses\<close> comes from \<open>ConsensusSettings\<close>, which is declared elsewhere, and the
  whitelist from the constructor of \<open>Whitelist\<close>: both are parameters here.
\<close>

definition loopParams ::
  "Options \<Rightarrow> nat \<Rightarrow> (string \<Rightarrow> int \<Rightarrow> bool) option \<Rightarrow> Params" where
  "loopParams options settingsMinPasses wl =
     \<lparr>MinPasses = settingsMinPasses, minSnr = binary32 (MinSnr options),
      minReadScore = binary32 (1000 * binary32 (MinReadScore options)), whitelist = wl\<rparr>"

text \<open>
  A state inside the loop: the files \<open>files\<close> have been read to their ends and the reads
  \<open>reads\<close> of the next file have been processed.
\<close>

definition loopState :: "Params \<Rightarrow> BamRecord list list \<Rightarrow> BamRecord list \<Rightarrow> State" where
  "loopState p files reads =
     foldl (processRead p) (enterFile (processFiles p initState files)) reads"

text \<open>
  For each read of a file in turn, whether the loop body takes the branch of line 411 (the
  guard is evaluated in the state the earlier reads have left).
\<close>

fun boundaries :: "Params \<Rightarrow> State \<Rightarrow> BamRecord list \<Rightarrow> bool list" where
  "boundaries p st [] = []"
| "boundaries p st (read # rest) =
     isBoundary st read # boundaries p (processRead p st read) rest"

text \<open>
  The boundary rule in the words of the specification: a read opens a molecule when its
  MoleculeId, the pair of movie name and hole number, differs from the current one.
\<close>

fun MoleculeId_changes :: "(string \<times> int) option \<Rightarrow> BamRecord list \<Rightarrow> bool list" where
  "MoleculeId_changes cur [] = []"
| "MoleculeId_changes cur (read # rest) =
     (cur \<noteq> Some (MovieName read, HoleNumber read)) #
     MoleculeId_changes (Some (MovieName read, HoleNumber read)) rest"

text \<open>The rule with the hole number alone.\<close>

fun HoleNumber_changes :: "int option \<Rightarrow> BamRecord list \<Rightarrow> bool list" where
  "HoleNumber_changes cur [] = []"
| "HoleNumber_changes cur (read # rest) =
     (cur \<noteq> Some (HoleNumber read)) # HoleNumber_changes (Some (HoleNumber read)) rest"

text \<open>
  The input seen molecule by molecule, for stating what a whole run produces. The
  molecules of a file are its maximal runs of consecutive reads with one hole number.
\<close>

function molecules :: "BamRecord list \<Rightarrow> BamRecord list list" where
  "molecules [] = []"
| "molecules (r # rs) =
     (r # takeWhile (\<lambda>x. HoleNumber x = HoleNumber r) rs) #
     molecules (dropWhile (\<lambda>x. HoleNumber x = HoleNumber r) rs)"
  by pat_completeness auto
termination
  by (relation "measure length") (auto simp: less_Suc_eq_le length_dropWhile_le)

text \<open>
  The first read of a molecule decides the filters: it passes all three, or it passes the
  whitelist and the chemistry and fails the signal-to-noise threshold.
\<close>

definition passesFilters :: "Params \<Rightarrow> BamRecord \<Rightarrow> bool" where
  "passesFilters p r =
     ((case whitelist p of None \<Rightarrow> True | Some wl \<Rightarrow> wl (MovieName r) (HoleNumber r)) \<and>
      VerifyChemistry (ReadGroup r) \<and> minSnr p \<le> min_element (SignalToNoise r))"

definition failsSNR :: "Params \<Rightarrow> BamRecord \<Rightarrow> bool" where
  "failsSNR p r =
     ((case whitelist p of None \<Rightarrow> True | Some wl \<Rightarrow> wl (MovieName r) (HoleNumber r)) \<and>
      VerifyChemistry (ReadGroup r) \<and> min_element (SignalToNoise r) < minSnr p)"

text \<open>
  The sub-read made of a read, the chunk made of the reads of a molecule (those that meet
  the accuracy threshold, in order), and the two fates of a molecule that passes the
  filters: enough reads, or too few.
\<close>

definition subreadOf :: "BamRecord \<Rightarrow> Subread" where
  "subreadOf r =
     \<lparr>SubreadId = \<lparr>IdMovieName = Some (MovieName r), IdHoleNumber = HoleNumber r,
                   IdInterval = Some (QueryStart r, QueryEnd r)\<rparr>,
      Seq = Sequence r, Flags = LocalContextFlags r, SubreadAccuracy = ReadAccuracy r\<rparr>"

definition chunkOf :: "Params \<Rightarrow> BamRecord list \<Rightarrow> Chunk" where
  "chunkOf p g =
     \<lparr>ChunkId = \<lparr>IdMovieName = Some (MovieName (hd g)), IdHoleNumber = HoleNumber (hd g),
                 IdInterval = None\<rparr>,
      Reads = map subreadOf (filter (\<lambda>r. minReadScore p \<le> ReadAccuracy r) g),
      ChunkSNR = SignalToNoise (hd g)\<rparr>"

definition accepted :: "Params \<Rightarrow> BamRecord list \<Rightarrow> bool" where
  "accepted p g = (passesFilters p (hd g) \<and> MinPasses p \<le> length (Reads (chunkOf p g)))"

definition tooShort :: "Params \<Rightarrow> BamRecord list \<Rightarrow> bool" where
  "tooShort p g = (passesFilters p (hd g) \<and> length (Reads (chunkOf p g)) < MinPasses p)"

text \<open>
  What holds of the state whenever the loop body is entered: at most one chunk is being
  filled; it is there exactly while a molecule that passed the filters is open; the
  registry maps a movie name to itself; every vector submitted holds one chunk, of at least
  \<open>MinPasses\<close> reads.
\<close>

definition inv :: "Params \<Rightarrow> State \<Rightarrow> bool" where
  "inv p st = (length (chunk st) \<le> 1 \<and>
     (skipZmw st \<longrightarrow> chunk st = []) \<and>
     (holeNumber st \<noteq> None \<and> \<not> skipZmw st \<longrightarrow> chunk st \<noteq> []) \<and>
     (\<forall>k v. movieNames st k = Some v \<longrightarrow> v = k) \<and>
     (\<forall>v \<in> set (submitted st). \<exists>c. v = [c] \<and> MinPasses p \<le> length (Reads c)))"

section \<open>The work queue\<close>

text \<open>
  Modelled from the spec: the class \<open>WorkQueue<T>\<close> (\<open>pacbio/ccs/WorkQueue.h\<close>, which is not
  among the sources at hand), after section 4.2 of the specification. The queue holds a
  FIFO of pending-result handles; a handle is the submitted task and a flag that says
  whether its computation has completed. \<open>bound\<close> is the capacity tied to the worker count.
  Three history fields are added for stating properties: the tasks submitted, the results
  handed to \<open>apply\<close>, both oldest first, and whether a \<open>Consume\<close> has returned false.
\<close>

record ('t, 'r) WorkQueue =
  pending :: "('t \<times> bool) list"
  bound :: nat
  isFinalized :: bool
  submissions :: "'t list"
  delivered :: "'r list"
  exhausted :: bool

definition newQueue :: "nat \<Rightarrow> ('t, 'r) WorkQueue" where
  "newQueue b = \<lparr>pending = [], bound = b, isFinalized = False, submissions = [],
     delivered = [], exhausted = False\<rparr>"

text \<open>
  What the threads can do to the queue: the producer submits a task or finalizes; a worker
  completes the computation of the handle at some position of the FIFO, at any time and in
  any order; the consumer calls \<open>Consume\<close>.
\<close>

datatype 't action = Submit 't | Complete nat | Consume | Finalize

text \<open>
  One action, or \<open>None\<close> where the action cannot take place in this state: \<open>Submit\<close> blocks
  when the FIFO is at its bound (and is not called once the queue is finalized);
  \<open>Consume\<close> pops the head handle and blocks until that very handle has completed, then
  hands its result to \<open>apply\<close>; on an empty FIFO it returns false if the queue is finalized
  and blocks otherwise. The result of a task \<open>x\<close> is \<open>f x\<close>.
\<close>

fun step :: "('t \<Rightarrow> 'r) \<Rightarrow> ('t, 'r) WorkQueue \<Rightarrow> 't action \<Rightarrow> ('t, 'r) WorkQueue option" where
  "step f q (Submit x) =
     (if isFinalized q \<or> bound q \<le> length (pending q) then None
      else Some (q\<lparr>pending := pending q @ [(x, False)], submissions := submissions q @ [x]\<rparr>))"
| "step f q (Complete i) =
     (if i < length (pending q) \<and> \<not> snd (pending q ! i)
      then Some (q\<lparr>pending := (pending q)[i := (fst (pending q ! i), True)]\<rparr>)
      else None)"
| "step f q Consume =
     (case pending q of
        [] \<Rightarrow> if isFinalized q then Some (q\<lparr>exhausted := True\<rparr>) else None
      | h # rest \<Rightarrow>
          if snd h then Some (q\<lparr>pending := rest, delivered := delivered q @ [f (fst h)]\<rparr>)
          else None)"
| "step f q Finalize = Some (q\<lparr>isFinalized := True\<rparr>)"

text \<open>A schedule is any interleaving of the actions of the threads.\<close>

fun run :: "('t \<Rightarrow> 'r) \<Rightarrow> ('t, 'r) WorkQueue \<Rightarrow> 't action list \<Rightarrow> ('t, 'r) WorkQueue option" where
  "run f q [] = Some q"
| "run f q (a # as) = (case step f q a of None \<Rightarrow> None | Some q' \<Rightarrow> run f q' as)"

text \<open>
  A schedule that empties a FIFO: each head handle is completed if it has not been, and
  consumed; then the queue is finalized and the last \<open>Consume\<close> returns false.
\<close>

fun drainSchedule :: "('t \<times> bool) list \<Rightarrow> 't action list" where
  "drainSchedule [] = [Finalize, Consume]"
| "drainSchedule (h # rest) =
     (if snd h then [] else [Complete 0]) @ [Consume] @ drainSchedule rest"

text \<open>The tasks a schedule submits, in order, and the actions of the producer in it.\<close>

fun tasksOf :: "'t action list \<Rightarrow> 't list" where
  "tasksOf [] = []"
| "tasksOf (Submit x # as) = x # tasksOf as"
| "tasksOf (a # as) = tasksOf as"

fun isProducerAction :: "'t action \<Rightarrow> bool" where
  "isProducerAction (Submit x) = True"
| "isProducerAction Finalize = True"
| "isProducerAction a = False"

definition producerView :: "'t action list \<Rightarrow> 't action list" where
  "producerView schedule = filter isProducerAction schedule"

text \<open>
  What every reachable state of the queue satisfies: the results delivered, followed by
  the results of the handles still in the FIFO, are the results of the submissions in the
  order of submission; and \<open>Consume\<close> returns false only on a finalized, empty queue.
\<close>

definition queueInv :: "('t \<Rightarrow> 'r) \<Rightarrow> ('t, 'r) WorkQueue \<Rightarrow> bool" where
  "queueInv f q = (delivered q @ map (\<lambda>h. f (fst h)) (pending q) = map f (submissions q) \<and>
     (exhausted q \<longrightarrow> pending q = [] \<and> isFinalized q))"

section \<open>Counters, shutdown and report\<close>

text \<open>
  The outcome counters of \<open>Results = ResultType<CCS>\<close>, in the order in which
  \<open>WriteResultsReport\<close> reads them.
\<close>

record Results =
  Success :: nat
  PoorSNR :: nat
  NoSubreads :: nat
  TooShort :: nat
  TooFewPasses :: nat
  TooManyUnusable :: nat
  NonConvergent :: nat
  PoorQuality :: nat

text \<open>
  Modelled from the spec: \<open>Results::Total()\<close> (\<open>ResultType\<close> is declared in a header that is
  not among the sources at hand): the total of the counters of the mutually exclusive
  outcomes.
\<close>

definition Total :: "Results \<Rightarrow> nat" where
  "Total counts = Success counts + PoorSNR counts + NoSubreads counts + TooShort counts +
     TooFewPasses counts + TooManyUnusable counts + NonConvergent counts + PoorQuality counts"

text \<open>
  Lines 503-505: the counters the writer thread returned, with the two counts of the
  producer added.
\<close>

definition reportedCounts :: "Results \<Rightarrow> State \<Rightarrow> Results" where
  "reportedCounts writerCounts st =
     (let counts = writerCounts;
          counts = counts\<lparr>PoorSNR := PoorSNR counts + poorSNR st\<rparr>;
          counts = counts\<lparr>TooFewPasses := TooFewPasses counts + tooFewPasses st\<rparr>
      in counts)"

text \<open>
  The value of the \<open>double\<close> expression \<open>100.0 * count / total\<close>: a quotient of reals, not a
  number when \<open>0.0 / 0.0\<close>, infinite when a positive value is divided by \<open>0.0\<close>.
\<close>

datatype percentage = Finite real | Infinite | NotANumber

definition percent :: "nat \<Rightarrow> nat \<Rightarrow> percentage" where
  "percent c n =
     (if n = 0 then (if c = 0 then NotANumber else Infinite)
      else Finite (100 * real c / real n))"

text \<open>
  The output stream: the format flags for floating-point values and the lines written. A
  line is the label, the count, and the percentage together with the notation and the
  number of decimals the stream was set to when the value was written.
\<close>

datatype floatfield = DefaultFloat | FixedFloat | ScientificFloat

record Row =
  rowLabel :: string
  rowCount :: nat
  rowPercent :: percentage
  rowNotation :: floatfield
  rowDecimals :: nat

record ReportStream =
  floatFlags :: floatfield
  precision :: nat
  rows :: "Row list"

text \<open>One statement \<open>report << label << count << "," << 100.0 * count / total << '%' << endl\<close>.\<close>

definition writeRow :: "string \<Rightarrow> nat \<Rightarrow> nat \<Rightarrow> ReportStream \<Rightarrow> ReportStream" where
  "writeRow l c n report =
     report\<lparr>rows := rows report @
       [\<lparr>rowLabel = l, rowCount = c, rowPercent = percent c n,
         rowNotation = floatFlags report, rowDecimals = precision report\<rparr>]\<rparr>"

text \<open>\<open>WriteResultsReport\<close> (lines 233-262).\<close>

definition WriteResultsReport :: "ReportStream \<Rightarrow> Results \<Rightarrow> ReportStream" where
  "WriteResultsReport report0 counts =
     (let n = Total counts;
          report = report0\<lparr>floatFlags := FixedFloat, precision := 2\<rparr>;
          report = writeRow ''Success -- CCS generated'' (Success counts) n report;
          report = writeRow ''Failed -- Below SNR threshold'' (PoorSNR counts) n report;
          report = writeRow ''Failed -- No usable subreads'' (NoSubreads counts) n report;
          report = writeRow ''Failed -- Insert size too small'' (TooShort counts) n report;
          report = writeRow ''Failed -- Not enough full passes'' (TooFewPasses counts) n report;
          report = writeRow ''Failed -- Too many unusable subreads'' (TooManyUnusable counts)
                     n report;
          report = writeRow ''Failed -- CCS did not converge'' (NonConvergent counts) n report;
          report = writeRow ''Failed -- CCS below minimum predicted accuracy''
                     (PoorQuality counts) n report
      in report)"

text \<open>A stream just opened: default notation, six digits, nothing written.\<close>

definition newStream :: ReportStream where
  "newStream = \<lparr>floatFlags = DefaultFloat, precision = 6, rows = []\<rparr>"

text \<open>
  Lines 482-516, the end of \<open>main\<close>, as the operations on the work queue in program order
  and the report. \<open>writer\<close> stands for \<open>writer.get()\<close>: the counters the writer thread
  returns for the results of the submitted vectors, available only once the queue is
  finalized and drained.
\<close>

definition producerActions :: "Params \<Rightarrow> BamRecord list list \<Rightarrow> Chunk list action list" where
  "producerActions p files = map Submit (submitted (assemble p files)) @ [Finalize]"

definition mainReport ::
  "(Chunk list list \<Rightarrow> Results) \<Rightarrow> Params \<Rightarrow> BamRecord list list \<Rightarrow> ReportStream" where
  "mainReport writer p files =
     (let st = assemble p files;
          counts = reportedCounts (writer (submitted st)) st
      in WriteResultsReport newStream counts)"

section \<open>Start-up: the checks of \<open>main\<close> before the loop\<close>

text \<open>
  What \<open>main\<close> asks of its surroundings before the loop: \<open>FileExists\<close> (of \<open>Utility.h\<close>), the
  constructor of \<open>Whitelist\<close> (\<open>None\<close> where it throws), and the \<open>READTYPE\<close> of each read group
  in the header of an input file.
\<close>

record Env =
  FileExists :: "string \<Rightarrow> bool"
  WhitelistOf :: "string \<Rightarrow> (string \<Rightarrow> int \<Rightarrow> bool) option"
  HeaderReadTypes :: "string \<Rightarrow> string list"

text \<open>What start-up does to files, in the order in which it does it.\<close>

datatype effect =
  LogFileOpened string | InputOpened string | OutputBamCreated string | OutputPbiCreated string

text \<open>
  Modelled from the spec: \<open>parser.error(msg)\<close> (\<open>OptionParser\<close> is declared in a header that is
  not among the sources at hand). A configuration error is fatal: it is reported and the
  process exits with a non-zero status, so nothing after the call runs. The exit is the
  value \<open>ParserError msg\<close>.
\<close>

datatype exit = ParserError string

text \<open>
  \<open>PrepareHeader\<close> (lines 183-219), as far as files are concerned: the input files are
  opened in order, and a read group that is not of type \<open>SUBREAD\<close> ends the run.
\<close>

fun PrepareHeader :: "Env \<Rightarrow> string list \<Rightarrow> effect list \<times> exit option" where
  "PrepareHeader env [] = ([], None)"
| "PrepareHeader env (file # others) =
     (if list_ex (\<lambda>t. t \<noteq> ''SUBREAD'') (HeaderReadTypes env file)
      then ([InputOpened file],
            Some (ParserError ''invalid input file, READTYPE must be SUBREAD''))
      else case PrepareHeader env others of
             (opened, r) \<Rightarrow> (InputOpened file # opened, r))"

text \<open>
  Lines 327-386: the checks of the configuration, the logging, and the construction of
  the \<open>BamWriter\<close> for \<open>files.front()\<close> (its header argument is evaluated first) and of the
  optional \<open>PbiBuilder\<close>. \<open>files\<close> are the positional arguments.
\<close>

definition startup :: "Env \<Rightarrow> Options \<Rightarrow> string list \<Rightarrow> effect list \<times> exit option" where
  "startup env options files =
     (if MinPassesOpt options < 1
      then ([], Some (ParserError ''option --minPasses: invalid value: must be >= 1''))
      else if Zmws options \<noteq> [] \<and> WhitelistOf env (Zmws options) = None
      then ([], Some (ParserError (''option --zmws: invalid specification: '' @
                  [CHR 0x27] @ Zmws options @ [CHR 0x27])))
      else if length files < 1
      then ([], Some (ParserError ''missing OUTPUT''))
      else if length files < 2
      then ([], Some (ParserError ''missing FILES...''))
      else if FileExists env (hd files) \<and> \<not> ForceOutput options
      then ([], Some (ParserError (''OUTPUT: file already exists: '' @
                  [CHR 0x27] @ hd files @ [CHR 0x27])))
      else
        let logging = (if LogFile options \<noteq> [] then [LogFileOpened (LogFile options)] else [])
        in case PrepareHeader env (tl files) of
             (opened, Some e) \<Rightarrow> (logging @ opened, Some e)
           | (opened, None) \<Rightarrow>
               (logging @ opened @ [OutputBamCreated (hd files)] @
                  (if PbIndex options then [OutputPbiCreated (hd files @ ''.pbi'')] else []),
                None))"

section \<open>Example inputs\<close>

text \<open>A read group of the accepted P6/C4 chemistry, and one of another chemistry.\<close>

definition p6c4 :: ReadGroupInfo where
  "p6c4 = \<lparr>BindingKit = ''100356300'', SequencingKit = ''100356200'',
     BasecallerVersion = ''2.3.0.0.140018''\<rparr>"

definition otherChemistry :: ReadGroupInfo where
  "otherChemistry = \<lparr>BindingKit = ''100236500'', SequencingKit = ''100356200'',
     BasecallerVersion = ''2.3.0.0.140018''\<rparr>"

text \<open>A sub-read with the same signal-to-noise value on the four channels.\<close>

definition exRead :: "string \<Rightarrow> int \<Rightarrow> ReadGroupInfo \<Rightarrow> real \<Rightarrow> real \<Rightarrow> BamRecord" where
  "exRead movie hole rg snr acc =
     \<lparr>MovieName = movie, HoleNumber = hole,
      SignalToNoise = \<lparr>snrA = snr, snrC = snr, snrG = snr, snrT = snr\<rparr>,
      ReadGroup = rg, ReadAccuracy = acc, QueryStart = 0, QueryEnd = 4,
      Sequence = ''ACGT'', LocalContextFlags = 3\<rparr>"

text \<open>The defaults of the command line, with a minimum of two passes and no whitelist.\<close>

definition exOptions :: Options where
  "exOptions = \<lparr>ForceOutput = False, PbIndex = False, Zmws = [], MinSnr = 4,
     MinReadScore = 3 / 4, MinPassesOpt = 2, ReportFile = ''ccs_report.csv'',
     NumThreads = 0, LogFile = [], LogLevel = ''INFO''\<rparr>"

definition exParams :: Params where
  "exParams = loopParams exOptions 2 None"

text \<open>Surroundings in which only \<open>old.bam\<close> exists and every whitelist but \<open>x\<close> parses.\<close>

definition exEnv :: Env where
  "exEnv = \<lparr>FileExists = (\<lambda>f. f = ''old.bam''),
     WhitelistOf = (\<lambda>spec. if spec = ''x'' then None else Some (\<lambda>m h. True)),
     HeaderReadTypes = (\<lambda>f. [''SUBREAD''])\<rparr>"

section \<open>Properties of the thread count\<close>

lemma sint_bounds32: "- 2147483648 \<le> sint (w :: 32 word) \<and> sint w < 2147483648"
  using sint_ge [of w] sint_lt [of w] by simp

lemma sint_hc:
  assumes "uint (hc :: 32 word) < 2147483648"
  shows "sint hc = uint hc"
proof -
  have "- 2147483648 \<le> uint hc" using uint_ge_0 [of hc] by linarith
  then have "signed_take_bit 31 (uint hc) = uint hc"
    using assms by (simp add: signed_take_bit_int_eq_self_iff)
  then show ?thesis by (simp add: sint_uint)
qed

lemma sint_add_hc:
  assumes "uint (hc :: 32 word) < 2147483648" and "sint (n :: 32 word) < 1"
  shows "sint (hc + n) = uint hc + sint n"
proof -
  have "0 \<le> uint hc" by simp
  moreover have "- 2147483648 \<le> sint n" using sint_bounds32 [of n] by simp
  ultimately have "- 2147483648 \<le> uint hc + sint n \<and> uint hc + sint n < 2147483648"
    using assms by linarith
  then have "signed_take_bit 31 (uint hc + sint n) = uint hc + sint n"
    by (simp add: signed_take_bit_int_eq_self_iff)
  then show ?thesis
    by (simp add: sint_word_add sint_hc [OF assms(1)])
qed

lemma uint_scast_nonneg:
  assumes "0 \<le> sint (w :: 32 word)"
  shows "uint (scast w :: 64 word) = sint w"
proof -
  have up: "is_up (scast :: 32 word \<Rightarrow> 64 word)" by (simp add: is_up)
  have s: "sint (scast w :: 64 word) = sint w" by (rule sint_up_scast [OF up])
  have "sint w < 2147483648" using sint_bounds32 [of w] by simp
  then have "sint w < 2 ^ 64" by simp
  then have "take_bit 64 (sint w) = sint w" using assms by (simp add: take_bit_int_eq_self)
  then show ?thesis using uint_sint [of "scast w :: 64 word"] s by simp
qed

lemma max_int32_sint: "sint (max_int32 a b) = max (sint a) (sint b)"
  by (simp add: max_int32_def word_sless_alt max_def)

lemma min_int32_sint: "sint (min_int32 a b) = min (sint a) (sint b)"
  by (simp add: min_int32_def word_sless_alt min_def)

lemma ThreadCount_arith:
  assumes "uint hc < 2147483648"
  shows "uint (ThreadCount hc n) =
           (if sint n < 1 then max 1 (uint hc + sint n) else min (uint hc) (sint n))"
proof (cases "sint n < 1")
  case True
  have "sint (max_int32 1 (hc + n)) = max 1 (uint hc + sint n)"
    by (simp add: max_int32_sint sint_add_hc [OF assms True])
  moreover from this have "0 \<le> sint (max_int32 1 (hc + n))" by simp
  ultimately show ?thesis using True
    by (simp add: ThreadCount_def word_sless_alt uint_scast_nonneg)
next
  case False
  have "sint (min_int32 hc n) = min (uint hc) (sint n)"
    by (simp add: min_int32_sint sint_hc [OF assms])
  moreover from this False have "0 \<le> sint (min_int32 hc n)" by simp
  ultimately show ?thesis using False
    by (simp add: ThreadCount_def word_sless_alt uint_scast_nonneg)
qed

text \<open>
  Claim C7, as stated, ends with "in particular \<open>n = 0\<close> yields the auto-detected hardware
  concurrency". \<open>thread::hardware_concurrency()\<close> returns 0 when the value is not
  computable; then \<open>ThreadCount(0)\<close> is \<open>max(1, 0 + 0) = 1\<close>, not the reported 0.
\<close>

theorem ThreadCount_zero_counterexample:
  "uint (ThreadCount 0 0) \<noteq> uint (0 :: 32 word)"
  by (simp add: ThreadCount_def max_int32_def word_sless_alt)

text \<open>
  Claim C7, amended: for every \<open>int\<close> \<open>n\<close> and every hardware concurrency that fits an
  \<open>int\<close>, \<open>ThreadCount(n)\<close> is \<open>max(1, hardware_concurrency + n)\<close> when \<open>n < 1\<close> (the sum does
  not overflow) and \<open>min(hardware_concurrency, n)\<close> when \<open>n \<ge> 1\<close>; in particular \<open>n = 0\<close>
  yields \<open>max(1, hardware_concurrency)\<close>: the hardware concurrency when it is at least 1,
  and 1 when it is reported as 0.
\<close>

theorem ThreadCount_spec:
  assumes "uint hc < 2 ^ 31"
  shows "uint (ThreadCount hc n) =
           (if sint n < 1 then max 1 (uint hc + sint n) else min (uint hc) (sint n)) \<and>
         uint (ThreadCount hc 0) = max 1 (uint hc)"
proof -
  from assms have b: "uint hc < 2147483648" by simp
  have "uint (ThreadCount hc n) =
           (if sint n < 1 then max 1 (uint hc + sint n) else min (uint hc) (sint n))"
    by (rule ThreadCount_arith [OF b])
  moreover have "uint (ThreadCount hc 0) = max 1 (uint hc)"
    using ThreadCount_arith [OF b, of 0] by simp
  ultimately show ?thesis by simp
qed

theorem ThreadCount_spec_witness:
  "uint (8 :: 32 word) < 2 ^ 31 \<and> uint (ThreadCount 8 (- 3)) = 5 \<and>
   uint (ThreadCount 8 (- 30)) = 1 \<and> uint (ThreadCount 8 3) = 3 \<and>
   uint (ThreadCount 8 30) = 8 \<and> uint (ThreadCount 8 0) = 8"
  using ThreadCount_spec [of 8 "- 3"] ThreadCount_spec [of 8 "- 30"]
    ThreadCount_spec [of 8 3] ThreadCount_spec [of 8 30]
  by simp

section \<open>Properties of single-precision rounding\<close>

lemma pow2_powr: "pow2 e = 2 powr (real_of_int e)"
proof (cases "0 \<le> e")
  case True
  then have "2 powr (real_of_int e) = 2 powr (real (nat e))" by simp
  also have "\<dots> = 2 ^ nat e" by (simp add: powr_realpow)
  finally show ?thesis using True by (simp add: pow2_def)
next
  case False
  then have "2 powr (real_of_int e) = 2 powr (- real (nat (- e)))" by simp
  also have "\<dots> = 1 / 2 powr (real (nat (- e)))" by (simp add: powr_minus divide_inverse)
  also have "2 powr (real (nat (- e))) = 2 ^ nat (- e)" by (simp add: powr_realpow)
  finally show ?thesis using False by (simp add: pow2_def)
qed

lemma pow2_mono: "i \<le> j \<Longrightarrow> pow2 i \<le> pow2 j"
  by (simp add: pow2_powr)

lemma binade_eq:
  assumes "- 126 \<le> k" and "k \<le> int n - 126" and "k = - 126 \<or> pow2 k \<le> a" and "a < pow2 (k + 1)"
  shows "binade n a = k"
  using assms(2)
proof (induction n)
  case 0
  with assms(1) show ?case by simp
next
  case (Suc n)
  show ?case
  proof (cases "k = int n - 125")
    case True
    then have "k \<noteq> - 126" by simp
    with assms(3) have "pow2 k \<le> a" by simp
    with True show ?thesis by simp
  next
    case False
    with Suc.prems have le: "k \<le> int n - 126" by simp
    then have "k + 1 \<le> int n - 125" by simp
    then have "pow2 (k + 1) \<le> pow2 (int n - 125)" by (rule pow2_mono)
    with assms(4) have "\<not> pow2 (int n - 125) \<le> a" by simp
    then show ?thesis using Suc.IH [OF le] by simp
  qed
qed

text \<open>The rounding of a number of a known binade.\<close>

lemma binary32_eval:
  assumes "- 126 \<le> k" and "k \<le> 127" and "pow2 k \<le> \<bar>x\<bar>" and "\<bar>x\<bar> < pow2 (k + 1)"
  shows "binary32 x = of_int (round_even (x / pow2 (k - 23))) * pow2 (k - 23)"
proof -
  have "binade 253 \<bar>x\<bar> = k"
    using assms by (intro binade_eq) simp_all
  then show ?thesis by (simp add: binary32_def Let_def)
qed

lemma binary32_4: "binary32 4 = 4"
  using binary32_eval [of 2 4] by (simp add: pow2_def round_even_def)

lemma binary32_3_4: "binary32 (3 / 4) = 3 / 4"
  using binary32_eval [of "- 1" "3 / 4"] by (simp add: pow2_def round_even_def)

lemma binary32_750: "binary32 750 = 750"
  using binary32_eval [of 9 750] by (simp add: pow2_def round_even_def)

lemma binary32_507: "binary32 (507 / 1000) = 8506049 / 16777216"
  using binary32_eval [of "- 1" "507 / 1000"] by (simp add: pow2_def round_even_def)

lemma binary32_507_scaled: "binary32 (1000 * (8506049 / 16777216)) = 16613377 / 32768"
  using binary32_eval [of 8 "1000 * (8506049 / 16777216)"] by (simp add: pow2_def round_even_def)

lemma binary32_4_5: "binary32 (4 / 5) = 13421773 / 16777216"
  using binary32_eval [of "- 1" "4 / 5"] by (simp add: pow2_def round_even_def)

lemma binary32_800: "binary32 (1000 * (13421773 / 16777216)) = 800"
  using binary32_eval [of 9 "1000 * (13421773 / 16777216)"] by (simp add: pow2_def round_even_def)

text \<open>
  The thresholds of line 323 for three values of \<open>--minReadScore\<close>: the default 0.75 gives
  750 and 0.8 gives 800, but 0.507 gives 507.000030517578125.
\<close>

lemma threshold_default: "binary32 (1000 * binary32 (3 / 4)) = 750"
  by (simp only: binary32_3_4) (simp add: binary32_750)

lemma threshold_800: "binary32 (1000 * binary32 (4 / 5)) = 800"
  by (simp only: binary32_4_5 binary32_800)

lemma threshold_507: "binary32 (1000 * binary32 (507 / 1000)) = 16613377 / 32768"
  by (simp only: binary32_507 binary32_507_scaled)

section \<open>Properties of the chunk assembler\<close>

subsection \<open>Single steps\<close>

lemmas step_defs = processRead_def boundaryStep_def registerMovie_def isBoundary_def
  discardShort_def submitFull_def startMolecule_def admitRead_def chunkSize_def

lemma holeNumber_boundaryStep: "holeNumber (boundaryStep p st r) = Some (HoleNumber r)"
  by (auto simp: step_defs Let_def split: option.splits)

lemma holeNumber_processRead: "holeNumber (processRead p st r) = Some (HoleNumber r)"
  by (simp add: processRead_def admitRead_def holeNumber_boundaryStep)

lemma isBoundary_iff: "isBoundary st r = (holeNumber st \<noteq> Some (HoleNumber r))"
  by (simp add: isBoundary_def split: option.splits)

lemma boundaries_HoleNumber:
  "boundaries p st rs = HoleNumber_changes (holeNumber st) rs"
  by (induction rs arbitrary: st) (simp_all add: isBoundary_iff holeNumber_processRead)

lemma no_boundary_step: "\<not> isBoundary st r \<Longrightarrow> boundaryStep p st r = registerMovie (MovieName r) st"
  by (simp add: boundaryStep_def Let_def isBoundary_def registerMovie_def)

lemma boundary_is_startMolecule:
  "isBoundary st r \<Longrightarrow> boundaryStep p st r =
     startMolecule p r (submitFull (discardShort p (registerMovie (MovieName r) st)))"
  by (simp add: boundaryStep_def Let_def isBoundary_def registerMovie_def)

lemma no_boundary_counts:
  assumes "\<not> isBoundary st r"
  shows "tooFewPasses (processRead p st r) = tooFewPasses st"
    and "submitted (processRead p st r) = submitted st"
    and "poorSNR (processRead p st r) = poorSNR st"
    and "skipZmw (processRead p st r) = skipZmw st"
    and "holeNumber (processRead p st r) = holeNumber st"
    and "length (chunk (processRead p st r)) = length (chunk st)"
  using assms
  apply (auto simp: processRead_def no_boundary_step admitRead_def registerMovie_def)
  apply (cases "chunk st"; simp)+
  done

lemma min_element_Min:
  "min_element snr = Min {snrA snr, snrC snr, snrG snr, snrT snr}"
  by (simp add: min_element_def)

subsection \<open>The invariant of the loop\<close>

lemma inv_init: "inv p initState"
  by (simp add: inv_def initState_def)

lemma inv_enterFile: "inv p st \<Longrightarrow> inv p (enterFile st)"
  by (simp add: inv_def enterFile_def)

lemma inv_processRead: "inv p st \<Longrightarrow> inv p (processRead p st r)"
  apply (cases "chunk st")
  apply (auto simp: inv_def step_defs Let_def split: option.splits if_splits)
  done

lemma inv_foldl: "inv p st \<Longrightarrow> inv p (foldl (processRead p) st rs)"
  by (induction rs arbitrary: st) (simp_all add: inv_processRead)

lemma inv_processFile: "inv p st \<Longrightarrow> inv p (processFile p st q)"
  by (simp add: processFile_def inv_foldl inv_enterFile)

lemma inv_processFiles: "inv p st \<Longrightarrow> inv p (processFiles p st files)"
  unfolding processFiles_def
  by (induction files arbitrary: st) (simp_all add: inv_processFile)

lemma inv_loopState: "inv p (loopState p files reads)"
  by (simp add: loopState_def inv_foldl inv_enterFile inv_processFiles inv_init)

lemma chunk_cases: "inv p st \<Longrightarrow> chunk st = [] \<or> (\<exists>c. chunk st = [c])"
  by (cases "chunk st") (auto simp: inv_def)

lemma boundary_counts:
  assumes "inv p st" and "isBoundary st r"
  shows "tooFewPasses (processRead p st r) =
           tooFewPasses st + length (filter (\<lambda>c. length (Reads c) < MinPasses p) (chunk st))"
    and "submitted (processRead p st r) =
           submitted st @ map (\<lambda>c. [c]) (filter (\<lambda>c. MinPasses p \<le> length (Reads c)) (chunk st))"
  using chunk_cases [OF assms(1)] assms(2)
  by (auto simp: step_defs Let_def split: option.splits)

lemma finish_counts:
  assumes "inv p st"
  shows "tooFewPasses (finish p st) =
           tooFewPasses st + length (filter (\<lambda>c. length (Reads c) < MinPasses p) (chunk st))"
    and "submitted (finish p st) =
           submitted st @ map (\<lambda>c. [c]) (filter (\<lambda>c. MinPasses p \<le> length (Reads c)) (chunk st))"
  using chunk_cases [OF assms(1)]
  by (auto simp: finish_def submitRest_def discardShort_def)

lemma submitted_finish:
  assumes "inv p st" and "v \<in> set (submitted (finish p st))"
  shows "\<exists>c. v = [c] \<and> MinPasses p \<le> length (Reads c)"
proof -
  from assms(1) have sub: "\<forall>v \<in> set (submitted st). \<exists>c. v = [c] \<and> MinPasses p \<le> length (Reads c)"
    by (simp add: inv_def)
  from assms(2) finish_counts(2) [OF assms(1)]
  have "v \<in> set (submitted st) \<or> v \<in> set (map (\<lambda>c. [c]) (filter (\<lambda>c. MinPasses p \<le> length (Reads c)) (chunk st)))"
    by simp
  then show ?thesis using sub by auto
qed

lemma submitted_assemble:
  "v \<in> set (submitted (assemble p files)) \<Longrightarrow> \<exists>c. v = [c] \<and> MinPasses p \<le> length (Reads c)"
  using submitted_finish [OF inv_processFiles [OF inv_init]]
  by (simp add: assemble_def)

lemma makeSubread_registered:
  assumes "inv p s"
  shows "makeSubread (registerMovie (MovieName r) s) r =
     \<lparr>SubreadId = \<lparr>IdMovieName = Some (MovieName r), IdHoleNumber = the (holeNumber s),
                   IdInterval = Some (QueryStart r, QueryEnd r)\<rparr>,
      Seq = Sequence r, Flags = LocalContextFlags r, SubreadAccuracy = ReadAccuracy r\<rparr>"
proof (cases "movieNames s (MovieName r)")
  case None
  then show ?thesis by (simp add: makeSubread_def registerMovie_def)
next
  case (Some v)
  with assms have "v = MovieName r" by (simp add: inv_def)
  with Some show ?thesis by (simp add: makeSubread_def registerMovie_def)
qed

lemma inv_boundaryStep_chunk:
  assumes "inv p st" and "\<not> skipZmw (boundaryStep p st r)"
  shows "chunk (boundaryStep p st r) = [hd (chunk (boundaryStep p st r))]"
  using assms
  apply (cases "chunk st")
   apply (auto simp: inv_def step_defs Let_def split: option.splits if_splits)
  done

text \<open>
  \<open>chunk->back()\<close> at line 471 is applied to a non-empty vector: a read that is not skipped
  has a chunk to go to.
\<close>

lemma loopState_back_defined:
  "\<not> skipZmw (boundaryStep p (loopState p files reads) r) \<Longrightarrow>
   chunk (boundaryStep p (loopState p files reads) r) \<noteq> []"
  using inv_boundaryStep_chunk [OF inv_loopState, of p files reads r]
  by (cases "chunk (boundaryStep p (loopState p files reads) r)") simp_all

lemma admitRead_single:
  assumes "\<not> skipZmw s" and "chunk s = [c]"
  shows "admitRead p r s =
     s\<lparr>chunk := [c\<lparr>Reads := Reads c @
        (if minReadScore p \<le> ReadAccuracy r then [makeSubread s r] else [])\<rparr>]\<rparr>"
  using assms by (simp add: admitRead_def not_less)

lemma same_hole_run:
  assumes "inv p st" and "holeNumber st = Some h" and "\<not> skipZmw st"
    and "\<forall>r \<in> set rs. HoleNumber r = h"
  shows "holeNumber (foldl (processRead p) st rs) = Some h \<and>
         \<not> skipZmw (foldl (processRead p) st rs) \<and>
         chunk (foldl (processRead p) st rs) =
           [(hd (chunk st))\<lparr>Reads := Reads (hd (chunk st)) @
              map (\<lambda>r. makeSubread (registerMovie (MovieName r) st) r)
                (filter (\<lambda>r. minReadScore p \<le> ReadAccuracy r) rs)\<rparr>]"
  using assms(4)
proof (induction rs rule: rev_induct)
  case Nil
  from assms(1,2,3) have "chunk st = [hd (chunk st)]"
    by (cases "chunk st") (auto simp: inv_def)
  then have "chunk st = [(hd (chunk st))\<lparr>Reads := Reads (hd (chunk st))\<rparr>]" by simp
  with assms(2,3) show ?case by simp
next
  case (snoc r rs)
  let ?s = "foldl (processRead p) st rs"
  let ?c = "(hd (chunk st))\<lparr>Reads := Reads (hd (chunk st)) @
              map (\<lambda>r. makeSubread (registerMovie (MovieName r) st) r)
                (filter (\<lambda>r. minReadScore p \<le> ReadAccuracy r) rs)\<rparr>"
  from snoc have ih: "holeNumber ?s = Some h" "\<not> skipZmw ?s" "chunk ?s = [?c]" by simp_all
  from snoc.prems have hr: "HoleNumber r = h" by simp
  have invs: "inv p ?s" by (rule inv_foldl [OF assms(1)])
  have nb: "\<not> isBoundary ?s r" using ih(1) hr by (simp add: isBoundary_iff)
  let ?s1 = "registerMovie (MovieName r) ?s"
  have s1: "\<not> skipZmw ?s1" "chunk ?s1 = [?c]" "holeNumber ?s1 = Some h"
    using ih by (simp_all add: registerMovie_def)
  have mk: "makeSubread ?s1 r = makeSubread (registerMovie (MovieName r) st) r"
    by (simp add: makeSubread_registered [OF invs] makeSubread_registered [OF assms(1)] ih(1) assms(2))
  have step: "processRead p ?s r =
     ?s1\<lparr>chunk := [?c\<lparr>Reads := Reads ?c @
        (if minReadScore p \<le> ReadAccuracy r then [makeSubread ?s1 r] else [])\<rparr>]\<rparr>"
    by (simp only: processRead_def no_boundary_step [OF nb] admitRead_single [OF s1(1) s1(2)])
  show ?case
    by (simp add: step s1 mk)
qed

subsection \<open>The run as a whole, molecule by molecule\<close>

lemma boundary_first_read:
  assumes "inv p st" and "isBoundary st r"
  shows "holeNumber (processRead p st r) = Some (HoleNumber r)"
    and "skipZmw (processRead p st r) = (\<not> passesFilters p r)"
    and "poorSNR (processRead p st r) = poorSNR st + (if failsSNR p r then 1 else 0)"
    and "chunk (processRead p st r) = (if passesFilters p r then [chunkOf p [r]] else [])"
proof -
  show "holeNumber (processRead p st r) = Some (HoleNumber r)"
    by (rule holeNumber_processRead)
  let ?s = "submitFull (discardShort p (registerMovie (MovieName r) st))"
  have b: "boundaryStep p st r = startMolecule p r ?s"
    by (rule boundary_is_startMolecule [OF assms(2)])
  have c: "chunk ?s = []"
    using chunk_cases [OF assms(1)]
    by (auto simp: registerMovie_def discardShort_def submitFull_def chunkSize_def)
  have m: "movieNames ?s (MovieName r) = Some (MovieName r)"
    using assms(1)
    by (cases "movieNames st (MovieName r)")
       (auto simp: inv_def registerMovie_def discardShort_def submitFull_def)
  have p: "poorSNR ?s = poorSNR st"
    by (simp add: registerMovie_def discardShort_def submitFull_def)
  show "skipZmw (processRead p st r) = (\<not> passesFilters p r)"
    by (auto simp: processRead_def b admitRead_def startMolecule_def Let_def passesFilters_def
        split: option.splits)
  show "poorSNR (processRead p st r) = poorSNR st + (if failsSNR p r then 1 else 0)"
    using p
    by (auto simp: processRead_def b admitRead_def startMolecule_def Let_def failsSNR_def
        split: option.splits)
  show "chunk (processRead p st r) = (if passesFilters p r then [chunkOf p [r]] else [])"
    using c m
    by (auto simp: processRead_def b admitRead_def startMolecule_def Let_def passesFilters_def
        chunkOf_def subreadOf_def makeSubread_def split: option.splits)
qed

lemma same_hole_counts:
  assumes "holeNumber st = Some h" and "\<forall>x \<in> set rs. HoleNumber x = h"
  shows "holeNumber (foldl (processRead p) st rs) = Some h \<and>
         skipZmw (foldl (processRead p) st rs) = skipZmw st \<and>
         poorSNR (foldl (processRead p) st rs) = poorSNR st \<and>
         tooFewPasses (foldl (processRead p) st rs) = tooFewPasses st \<and>
         submitted (foldl (processRead p) st rs) = submitted st"
  using assms(2)
proof (induction rs rule: rev_induct)
  case Nil
  then show ?case using assms(1) by simp
next
  case (snoc r rs)
  let ?s = "foldl (processRead p) st rs"
  from snoc have ih: "holeNumber ?s = Some h" "skipZmw ?s = skipZmw st"
    "poorSNR ?s = poorSNR st" "tooFewPasses ?s = tooFewPasses st" "submitted ?s = submitted st"
    by simp_all
  from snoc.prems have "HoleNumber r = h" by simp
  with ih(1) have nb: "\<not> isBoundary ?s r" by (simp add: isBoundary_iff)
  show ?case using no_boundary_counts [OF nb, of p] ih by simp
qed

lemma skipped_run_chunk:
  assumes "holeNumber st = Some h" and "skipZmw st" and "\<forall>x \<in> set rs. HoleNumber x = h"
  shows "chunk (foldl (processRead p) st rs) = chunk st"
  using assms(3)
proof (induction rs rule: rev_induct)
  case Nil
  show ?case by simp
next
  case (snoc r rs)
  let ?s = "foldl (processRead p) st rs"
  from snoc have ih: "chunk ?s = chunk st" and all: "\<forall>x \<in> set rs. HoleNumber x = h"
    and hr: "HoleNumber r = h" by simp_all
  from same_hole_counts [OF assms(1) all, of p]
  have hs: "holeNumber ?s = Some h" and sk: "skipZmw ?s" using assms(2) by simp_all
  from hs hr have nb: "\<not> isBoundary ?s r" by (simp add: isBoundary_iff)
  have "chunk (processRead p ?s r) = chunk ?s"
    using sk by (simp add: processRead_def no_boundary_step [OF nb] admitRead_def registerMovie_def)
  with ih show ?case by simp
qed

lemma chunkOf_Cons:
  "(chunkOf p [r])\<lparr>Reads := Reads (chunkOf p [r]) @
      map subreadOf (filter (\<lambda>x. minReadScore p \<le> ReadAccuracy x) rest)\<rparr> = chunkOf p (r # rest)"
  by (simp add: chunkOf_def)

lemma molecule_run:
  assumes "inv p st" and "isBoundary st r" and "\<forall>x \<in> set rest. HoleNumber x = HoleNumber r"
  shows "holeNumber (foldl (processRead p) st (r # rest)) = Some (HoleNumber r)"
    and "submitted (foldl (processRead p) st (r # rest)) = submitted (finish p st)"
    and "tooFewPasses (foldl (processRead p) st (r # rest)) = tooFewPasses (finish p st)"
    and "poorSNR (foldl (processRead p) st (r # rest)) =
           poorSNR st + (if failsSNR p r then 1 else 0)"
    and "chunk (foldl (processRead p) st (r # rest)) =
           (if passesFilters p r then [chunkOf p (r # rest)] else [])"
proof -
  let ?s1 = "processRead p st r"
  note first = boundary_first_read [OF assms(1,2)]
  note run = same_hole_counts [OF first(1) assms(3), of p]
  have i1: "inv p ?s1" by (rule inv_processRead [OF assms(1)])
  show "holeNumber (foldl (processRead p) st (r # rest)) = Some (HoleNumber r)"
    using run by simp
  show "submitted (foldl (processRead p) st (r # rest)) = submitted (finish p st)"
    using run boundary_counts(2) [OF assms(1,2)] finish_counts(2) [OF assms(1)] by simp
  show "tooFewPasses (foldl (processRead p) st (r # rest)) = tooFewPasses (finish p st)"
    using run boundary_counts(1) [OF assms(1,2)] finish_counts(1) [OF assms(1)] by simp
  show "poorSNR (foldl (processRead p) st (r # rest)) =
           poorSNR st + (if failsSNR p r then 1 else 0)"
    using run first(3) by simp
  show "chunk (foldl (processRead p) st (r # rest)) =
           (if passesFilters p r then [chunkOf p (r # rest)] else [])"
  proof (cases "passesFilters p r")
    case False
    with first have "skipZmw ?s1" "chunk ?s1 = []" by simp_all
    with skipped_run_chunk [OF first(1) _ assms(3), of p] False show ?thesis by simp
  next
    case True
    with first have ns: "\<not> skipZmw ?s1" and c: "chunk ?s1 = [chunkOf p [r]]" by simp_all
    have mk: "map (\<lambda>x. makeSubread (registerMovie (MovieName x) ?s1) x)
                (filter (\<lambda>x. minReadScore p \<le> ReadAccuracy x) rest) =
              map subreadOf (filter (\<lambda>x. minReadScore p \<le> ReadAccuracy x) rest)"
      using assms(3) first(1)
      by (intro map_cong) (auto simp: makeSubread_registered [OF i1] subreadOf_def)
    from same_hole_run [OF i1 first(1) ns assms(3)]
    have "chunk (foldl (processRead p) ?s1 rest) =
           [(chunkOf p [r])\<lparr>Reads := Reads (chunkOf p [r]) @
              map subreadOf (filter (\<lambda>x. minReadScore p \<le> ReadAccuracy x) rest)\<rparr>]"
      by (simp add: c mk)
    with True show ?thesis by (simp add: chunkOf_Cons)
  qed
qed

lemma poorSNR_finish: "poorSNR (finish p st) = poorSNR st"
  by (simp add: finish_def submitRest_def discardShort_def)

lemma molecule_finish:
  assumes "inv p st" and "isBoundary st r" and "\<forall>x \<in> set rest. HoleNumber x = HoleNumber r"
  shows "submitted (finish p (foldl (processRead p) st (r # rest))) =
           submitted (finish p st) @ map (\<lambda>g. [chunkOf p g]) (filter (accepted p) [r # rest])"
    and "tooFewPasses (finish p (foldl (processRead p) st (r # rest))) =
           tooFewPasses (finish p st) + length (filter (tooShort p) [r # rest])"
proof -
  have i: "inv p (foldl (processRead p) st (r # rest))" by (rule inv_foldl [OF assms(1)])
  note m = molecule_run [OF assms]
  show "submitted (finish p (foldl (processRead p) st (r # rest))) =
           submitted (finish p st) @ map (\<lambda>g. [chunkOf p g]) (filter (accepted p) [r # rest])"
    using finish_counts(2) [OF i] m(2,5) by (simp add: accepted_def)
  show "tooFewPasses (finish p (foldl (processRead p) st (r # rest))) =
           tooFewPasses (finish p st) + length (filter (tooShort p) [r # rest])"
    using finish_counts(1) [OF i] m(3,5) by (simp add: tooShort_def)
qed

lemma file_run:
  assumes "inv p st" and "rs = [] \<or> isBoundary st (hd rs)"
  shows "submitted (finish p (foldl (processRead p) st rs)) =
           submitted (finish p st) @ map (\<lambda>g. [chunkOf p g]) (filter (accepted p) (molecules rs)) \<and>
         tooFewPasses (finish p (foldl (processRead p) st rs)) =
           tooFewPasses (finish p st) + length (filter (tooShort p) (molecules rs)) \<and>
         poorSNR (foldl (processRead p) st rs) =
           poorSNR st + length (filter (\<lambda>g. failsSNR p (hd g)) (molecules rs))"
  using assms
proof (induction rs arbitrary: st rule: molecules.induct)
  case 1
  show ?case by simp
next
  case (2 r rs)
  let ?P = "\<lambda>x. HoleNumber x = HoleNumber r"
  let ?g = "r # takeWhile ?P rs"
  let ?rem = "dropWhile ?P rs"
  let ?s = "foldl (processRead p) st ?g"
  from "2.prems" have b: "isBoundary st r" by simp
  have same: "\<forall>x \<in> set (takeWhile ?P rs). HoleNumber x = HoleNumber r"
    by (auto dest: set_takeWhileD)
  have split: "foldl (processRead p) st (r # rs) = foldl (processRead p) ?s ?rem"
  proof -
    have "r # rs = ?g @ ?rem" by simp
    then show ?thesis by (simp only: foldl_append)
  qed
  have i: "inv p ?s" by (rule inv_foldl [OF "2.prems"(1)])
  note m = molecule_run [OF "2.prems"(1) b same]
  note f = molecule_finish [OF "2.prems"(1) b same]
  have nb: "?rem = [] \<or> isBoundary ?s (hd ?rem)"
  proof (cases "?rem = []")
    case True
    then show ?thesis by simp
  next
    case False
    then have "\<not> ?P (hd ?rem)" by (rule hd_dropWhile)
    then show ?thesis using m(1) by (simp add: isBoundary_iff)
  qed
  have mol: "molecules (r # rs) = ?g # molecules ?rem" by simp
  from "2.IH" [OF i nb] f m(4) show ?case
    unfolding split mol by simp
qed

lemma poorSNR_enterFile: "poorSNR (enterFile st) = poorSNR st"
  by (simp add: enterFile_def)

lemma finish_enterFile:
  "submitted (finish p (enterFile st)) = submitted (finish p st)"
  "tooFewPasses (finish p (enterFile st)) = tooFewPasses (finish p st)"
  by (simp_all add: finish_def submitRest_def discardShort_def enterFile_def)

lemma files_run:
  assumes "inv p st"
  shows "submitted (finish p (processFiles p st files)) =
           submitted (finish p st) @
           map (\<lambda>g. [chunkOf p g]) (filter (accepted p) (concat (map molecules files))) \<and>
         tooFewPasses (finish p (processFiles p st files)) =
           tooFewPasses (finish p st) + length (filter (tooShort p) (concat (map molecules files))) \<and>
         poorSNR (processFiles p st files) =
           poorSNR st + length (filter (\<lambda>g. failsSNR p (hd g)) (concat (map molecules files)))"
  using assms
proof (induction files arbitrary: st)
  case Nil
  show ?case by (simp add: processFiles_def)
next
  case (Cons q files)
  let ?s = "processFile p st q"
  have i: "inv p ?s" by (rule inv_processFile [OF Cons.prems])
  have ie: "inv p (enterFile st)" by (rule inv_enterFile [OF Cons.prems])
  have b: "q = [] \<or> isBoundary (enterFile st) (hd q)"
    by (simp add: isBoundary_def enterFile_def)
  have step: "processFiles p st (q # files) = processFiles p ?s files"
    by (simp add: processFiles_def)
  from file_run [OF ie b] have one:
    "submitted (finish p ?s) =
       submitted (finish p st) @ map (\<lambda>g. [chunkOf p g]) (filter (accepted p) (molecules q))"
    "tooFewPasses (finish p ?s) =
       tooFewPasses (finish p st) + length (filter (tooShort p) (molecules q))"
    "poorSNR ?s = poorSNR st + length (filter (\<lambda>g. failsSNR p (hd g)) (molecules q))"
    by (simp_all add: processFile_def finish_enterFile poorSNR_enterFile)
  from Cons.IH [OF i] show ?case
    by (simp add: step one)
qed

text \<open>
  What a run submits and counts: one vector per molecule that passes the filters and has
  at least \<open>MinPasses\<close> accepted reads, in the order of the input; one \<open>tooFewPasses\<close> per
  molecule that passes the filters and has fewer; one \<open>poorSNR\<close> per molecule that fails
  the signal-to-noise threshold after passing the whitelist and the chemistry.
\<close>

lemma assemble_by_molecules:
  "submitted (assemble p files) =
     map (\<lambda>g. [chunkOf p g]) (filter (accepted p) (concat (map molecules files))) \<and>
   tooFewPasses (assemble p files) =
     length (filter (tooShort p) (concat (map molecules files))) \<and>
   poorSNR (assemble p files) =
     length (filter (\<lambda>g. failsSNR p (hd g)) (concat (map molecules files)))"
proof -
  have "finish p initState = initState"
    by (simp add: finish_def submitRest_def discardShort_def initState_def)
  then show ?thesis
    using files_run [OF inv_init, of p files]
    by (simp add: assemble_def poorSNR_finish initState_def)
qed

subsection \<open>Evaluation of the examples\<close>

lemmas ex_defs = exParams_def loopParams_def exOptions_def exRead_def p6c4_def otherChemistry_def
  binary32_4 threshold_default threshold_800 threshold_507
  loopState_def processFiles_def processFile_def enterFile_def initState_def
  VerifyChemistry_def min_element_def finish_def submitRest_def assemble_def

subsection \<open>The scenarios of the specification\<close>

text \<open>
  Three molecules of three good reads each, with a minimum of two passes: three
  submissions. A molecule with signal-to-noise 2 on every channel against a minimum of 4:
  no chunk, one \<open>poorSNR\<close>. A molecule with one accepted read against a minimum of two
  passes: counted in \<open>tooFewPasses\<close> when the next molecule begins, never submitted. No
  reads: nothing happens.
\<close>

lemma scenario_A:
  "map (map (\<lambda>c. (IdHoleNumber (ChunkId c), length (Reads c))))
     (submitted (assemble exParams
        [[exRead ''m'' 1 p6c4 8 800, exRead ''m'' 1 p6c4 8 800, exRead ''m'' 1 p6c4 8 800,
          exRead ''m'' 2 p6c4 8 800, exRead ''m'' 2 p6c4 8 800, exRead ''m'' 2 p6c4 8 800,
          exRead ''m'' 3 p6c4 8 800, exRead ''m'' 3 p6c4 8 800, exRead ''m'' 3 p6c4 8 800]])) =
     [[(1, 3)], [(2, 3)], [(3, 3)]] \<and>
   poorSNR (assemble exParams
        [[exRead ''m'' 1 p6c4 8 800, exRead ''m'' 1 p6c4 8 800, exRead ''m'' 1 p6c4 8 800,
          exRead ''m'' 2 p6c4 8 800, exRead ''m'' 2 p6c4 8 800, exRead ''m'' 2 p6c4 8 800,
          exRead ''m'' 3 p6c4 8 800, exRead ''m'' 3 p6c4 8 800, exRead ''m'' 3 p6c4 8 800]]) = 0 \<and>
   tooFewPasses (assemble exParams
        [[exRead ''m'' 1 p6c4 8 800, exRead ''m'' 1 p6c4 8 800, exRead ''m'' 1 p6c4 8 800,
          exRead ''m'' 2 p6c4 8 800, exRead ''m'' 2 p6c4 8 800, exRead ''m'' 2 p6c4 8 800,
          exRead ''m'' 3 p6c4 8 800, exRead ''m'' 3 p6c4 8 800, exRead ''m'' 3 p6c4 8 800]]) = 0"
  by (simp add: ex_defs step_defs makeSubread_def)

lemma scenario_B:
  "submitted (assemble exParams [[exRead ''m'' 1 p6c4 2 800, exRead ''m'' 1 p6c4 2 800]]) = [] \<and>
   poorSNR (assemble exParams [[exRead ''m'' 1 p6c4 2 800, exRead ''m'' 1 p6c4 2 800]]) = 1 \<and>
   tooFewPasses (assemble exParams [[exRead ''m'' 1 p6c4 2 800, exRead ''m'' 1 p6c4 2 800]]) = 0"
  by (simp add: ex_defs step_defs makeSubread_def)

lemma scenario_C:
  "submitted (assemble exParams [[exRead ''m'' 1 p6c4 8 800, exRead ''m'' 2 p6c4 2 800]]) = [] \<and>
   tooFewPasses (loopState exParams [] [exRead ''m'' 1 p6c4 8 800]) = 0 \<and>
   tooFewPasses (loopState exParams [] [exRead ''m'' 1 p6c4 8 800, exRead ''m'' 2 p6c4 2 800]) = 1 \<and>
   poorSNR (assemble exParams [[exRead ''m'' 1 p6c4 8 800, exRead ''m'' 2 p6c4 2 800]]) = 1"
  by (simp add: ex_defs step_defs makeSubread_def)

lemma empty_stream: "assemble p [] = initState \<and> assemble p [[], []] = initState"
  by (simp add: assemble_def processFiles_def processFile_def finish_def submitRest_def
      discardShort_def initState_def enterFile_def)

subsection \<open>Molecule boundaries\<close>

text \<open>
  Claim C1, as stated: a molecule boundary occurs exactly when the MoleculeId of the
  incoming read, its pair of movie name and hole number, differs from the identity of the
  current molecule. The guard of line 411 reads the hole number only: two consecutive reads
  of one file with the same hole number and different movie names are taken for one
  molecule.
\<close>

theorem boundary_by_MoleculeId_counterexample:
  "boundaries exParams (enterFile initState)
     [exRead ''movieA'' 5 p6c4 8 800, exRead ''movieB'' 5 p6c4 8 800] = [True, False] \<and>
   MoleculeId_changes None
     [exRead ''movieA'' 5 p6c4 8 800, exRead ''movieB'' 5 p6c4 8 800] = [True, True]"
  by (simp add: ex_defs step_defs)

text \<open>
  Claim C1, amended: within the reads of one input file, the branch that discards,
  submits, filters and starts a new chunk is taken exactly at the first read of the file
  and at every read whose hole number differs from the hole number of the read before it
  (the movie name is not compared); a read that does not take the branch only has its
  movie name registered before the per-read filter.
\<close>

theorem boundary_iff_hole_number_changes:
  "boundaries p (enterFile st) reads = HoleNumber_changes None reads \<and>
   boundaries p st reads = HoleNumber_changes (holeNumber st) reads \<and>
   (isBoundary st r \<longrightarrow>
      boundaryStep p st r =
        startMolecule p r (submitFull (discardShort p (registerMovie (MovieName r) st)))) \<and>
   (\<not> isBoundary st r \<longrightarrow> boundaryStep p st r = registerMovie (MovieName r) st)"
proof -
  have "boundaries p (enterFile st) reads = HoleNumber_changes None reads"
    by (simp add: boundaries_HoleNumber enterFile_def)
  moreover have "isBoundary st r \<Longrightarrow> boundaryStep p st r =
        startMolecule p r (submitFull (discardShort p (registerMovie (MovieName r) st)))"
    by (simp add: boundaryStep_def Let_def isBoundary_def registerMovie_def)
  ultimately show ?thesis
    by (simp add: boundaries_HoleNumber no_boundary_step)
qed

theorem boundary_iff_hole_number_changes_witness:
  "boundaries exParams (enterFile initState)
     [exRead ''m'' 1 p6c4 8 800, exRead ''m'' 1 p6c4 8 800, exRead ''m'' 2 p6c4 8 800,
      exRead ''n'' 2 p6c4 8 800] = [True, False, True, False] \<and>
   isBoundary (loopState exParams [] [exRead ''m'' 1 p6c4 8 800]) (exRead ''m'' 2 p6c4 8 800) \<and>
   holeNumber (boundaryStep exParams (loopState exParams [] [exRead ''m'' 1 p6c4 8 800])
      (exRead ''m'' 2 p6c4 8 800)) = Some 2 \<and>
   tooFewPasses (boundaryStep exParams (loopState exParams [] [exRead ''m'' 1 p6c4 8 800])
      (exRead ''m'' 2 p6c4 8 800)) = 1 \<and>
   \<not> isBoundary (loopState exParams [] [exRead ''m'' 1 p6c4 8 800]) (exRead ''n'' 1 p6c4 8 800) \<and>
   chunk (boundaryStep exParams (loopState exParams [] [exRead ''m'' 1 p6c4 8 800])
      (exRead ''n'' 1 p6c4 8 800)) = chunk (loopState exParams [] [exRead ''m'' 1 p6c4 8 800]) \<and>
   tooFewPasses (boundaryStep exParams (loopState exParams [] [exRead ''m'' 1 p6c4 8 800])
      (exRead ''n'' 1 p6c4 8 800)) = 0"
  using boundary_iff_hole_number_changes [of exParams initState
     "[exRead ''m'' 1 p6c4 8 800, exRead ''m'' 1 p6c4 8 800, exRead ''m'' 2 p6c4 8 800,
      exRead ''n'' 2 p6c4 8 800]"]
    boundary_iff_hole_number_changes [of exParams "loopState exParams [] [exRead ''m'' 1 p6c4 8 800]"
      "[]" "exRead ''m'' 2 p6c4 8 800"]
    boundary_iff_hole_number_changes [of exParams "loopState exParams [] [exRead ''m'' 1 p6c4 8 800]"
      "[]" "exRead ''n'' 1 p6c4 8 800"]
  by (simp add: ex_defs step_defs makeSubread_def)

subsection \<open>The minimum number of passes\<close>

text \<open>
  Claim C3: a chunk that has fewer than \<open>MinPasses\<close> reads (none at all when every read of
  the molecule failed the accuracy filter) is dropped, and \<open>tooFewPasses\<close> incremented by
  one, at the next molecule boundary or at the end of the stream, and not when a read is
  admitted or dropped; it is never submitted. In every state of the loop at most one chunk
  is open, so the sums below count one chunk or none: at a boundary and at the end of the
  stream the open chunk is counted when it is short and submitted when it is not; a read
  inside a molecule changes neither the counter nor the submissions nor the number of
  chunks; every chunk the run submits has at least \<open>MinPasses\<close> reads. Over a whole run,
  \<open>tooFewPasses\<close> counts the molecules that pass the filters with fewer than \<open>MinPasses\<close>
  accepted reads, once each, and the submissions are the chunks of the molecules that pass
  the filters with at least \<open>MinPasses\<close> accepted reads.
\<close>

theorem too_few_passes_at_boundary:
  assumes "st = loopState p files reads"
  shows "(isBoundary st r \<longrightarrow>
            tooFewPasses (processRead p st r) =
              tooFewPasses st + length (filter (\<lambda>c. length (Reads c) < MinPasses p) (chunk st)) \<and>
            submitted (processRead p st r) =
              submitted st @ map (\<lambda>c. [c]) (filter (\<lambda>c. MinPasses p \<le> length (Reads c)) (chunk st))) \<and>
         (\<not> isBoundary st r \<longrightarrow>
            tooFewPasses (processRead p st r) = tooFewPasses st \<and>
            submitted (processRead p st r) = submitted st \<and>
            length (chunk (processRead p st r)) = length (chunk st)) \<and>
         tooFewPasses (finish p st) =
           tooFewPasses st + length (filter (\<lambda>c. length (Reads c) < MinPasses p) (chunk st)) \<and>
         submitted (finish p st) =
           submitted st @ map (\<lambda>c. [c]) (filter (\<lambda>c. MinPasses p \<le> length (Reads c)) (chunk st)) \<and>
         length (chunk st) \<le> 1 \<and>
         (\<forall>v \<in> set (submitted (assemble p files)). \<forall>c \<in> set v. MinPasses p \<le> length (Reads c)) \<and>
         tooFewPasses (assemble p files) =
           length (filter (tooShort p) (concat (map molecules files))) \<and>
         submitted (assemble p files) =
           map (\<lambda>g. [chunkOf p g]) (filter (accepted p) (concat (map molecules files)))"
proof -
  have i: "inv p st" using assms by (simp add: inv_loopState)
  have l: "length (chunk st) \<le> 1" using i by (simp add: inv_def)
  have s: "\<forall>v \<in> set (submitted (assemble p files)). \<forall>c \<in> set v. MinPasses p \<le> length (Reads c)"
    using submitted_assemble [of _ p files] by fastforce
  have g: "tooFewPasses (assemble p files) =
           length (filter (tooShort p) (concat (map molecules files))) \<and>
         submitted (assemble p files) =
           map (\<lambda>g. [chunkOf p g]) (filter (accepted p) (concat (map molecules files)))"
    using assemble_by_molecules [of p files] by simp
  show ?thesis
    using boundary_counts [OF i, of r] no_boundary_counts(1,2,6) [of st r p] finish_counts [OF i] l s g
    by blast
qed

theorem too_few_passes_at_boundary_witness:
  "isBoundary (loopState exParams [] [exRead ''m'' 1 p6c4 8 700]) (exRead ''m'' 2 p6c4 8 800) \<and>
   map (\<lambda>c. length (Reads c)) (chunk (loopState exParams [] [exRead ''m'' 1 p6c4 8 700])) = [0] \<and>
   tooFewPasses (loopState exParams [] [exRead ''m'' 1 p6c4 8 700]) = 0 \<and>
   tooFewPasses (processRead exParams (loopState exParams [] [exRead ''m'' 1 p6c4 8 700])
      (exRead ''m'' 2 p6c4 8 800)) = 1 \<and>
   submitted (processRead exParams (loopState exParams [] [exRead ''m'' 1 p6c4 8 700])
      (exRead ''m'' 2 p6c4 8 800)) = [] \<and>
   \<not> isBoundary (loopState exParams [] [exRead ''m'' 1 p6c4 8 700]) (exRead ''m'' 1 p6c4 8 800) \<and>
   tooFewPasses (processRead exParams (loopState exParams [] [exRead ''m'' 1 p6c4 8 700])
      (exRead ''m'' 1 p6c4 8 800)) = 0 \<and>
   tooFewPasses (finish exParams (loopState exParams [] [exRead ''m'' 1 p6c4 8 700])) = 1 \<and>
   submitted (finish exParams (loopState exParams [] [exRead ''m'' 1 p6c4 8 700])) = [] \<and>
   map (map HoleNumber) (filter (tooShort exParams) (concat (map molecules
     [[exRead ''m'' 1 p6c4 8 700, exRead ''m'' 2 p6c4 8 800, exRead ''m'' 2 p6c4 8 800],
      [exRead ''m'' 2 p6c4 8 800]]))) = [[1], [2]] \<and>
   tooFewPasses (assemble exParams
     [[exRead ''m'' 1 p6c4 8 700, exRead ''m'' 2 p6c4 8 800, exRead ''m'' 2 p6c4 8 800],
      [exRead ''m'' 2 p6c4 8 800]]) = 2"
  using too_few_passes_at_boundary [of "loopState exParams [] [exRead ''m'' 1 p6c4 8 700]" exParams
      "[]" "[exRead ''m'' 1 p6c4 8 700]" "exRead ''m'' 2 p6c4 8 800"]
    too_few_passes_at_boundary [of "loopState exParams [] [exRead ''m'' 1 p6c4 8 700]" exParams
      "[]" "[exRead ''m'' 1 p6c4 8 700]" "exRead ''m'' 1 p6c4 8 800"]
    too_few_passes_at_boundary [of "loopState exParams
        [[exRead ''m'' 1 p6c4 8 700, exRead ''m'' 2 p6c4 8 800, exRead ''m'' 2 p6c4 8 800],
         [exRead ''m'' 2 p6c4 8 800]] []" exParams
      "[[exRead ''m'' 1 p6c4 8 700, exRead ''m'' 2 p6c4 8 800, exRead ''m'' 2 p6c4 8 800],
        [exRead ''m'' 2 p6c4 8 800]]" "[]" "exRead ''m'' 1 p6c4 8 800"]
  by (simp add: ex_defs step_defs makeSubread_def tooShort_def passesFilters_def chunkOf_def)

subsection \<open>The molecule filters\<close>

text \<open>
  Claim C4: at a molecule boundary the loop body runs the filters of \<open>startMolecule\<close>, in
  the order whitelist, chemistry, signal-to-noise, and the first failure decides. A
  molecule outside the whitelist is skipped and no counter changes, whatever its chemistry
  and signal-to-noise; a molecule of another chemistry is skipped and no counter changes,
  whatever its signal-to-noise; a molecule whose smallest channel value is below \<open>minSnr\<close>
  is skipped and \<open>poorSNR\<close> grows by exactly one; otherwise, and only then, a chunk with no
  reads is appended for the molecule and it is not skipped. Over a whole run \<open>poorSNR\<close>
  counts the molecules that pass the whitelist and the chemistry and fail the
  signal-to-noise threshold, once each.
\<close>

theorem molecule_filters_in_order:
  "(isBoundary st0 r \<longrightarrow> boundaryStep p st0 r =
      startMolecule p r (submitFull (discardShort p (registerMovie (MovieName r) st0)))) \<and>
   ((\<exists>wl. whitelist p = Some wl \<and> \<not> wl (MovieName r) (HoleNumber r)) \<longrightarrow>
      startMolecule p r st = st\<lparr>holeNumber := Some (HoleNumber r), skipZmw := True\<rparr>) \<and>
   ((\<forall>wl. whitelist p = Some wl \<longrightarrow> wl (MovieName r) (HoleNumber r)) \<and>
    \<not> VerifyChemistry (ReadGroup r) \<longrightarrow>
      startMolecule p r st = st\<lparr>holeNumber := Some (HoleNumber r), skipZmw := True\<rparr>) \<and>
   ((\<forall>wl. whitelist p = Some wl \<longrightarrow> wl (MovieName r) (HoleNumber r)) \<and>
    VerifyChemistry (ReadGroup r) \<and> min_element (SignalToNoise r) < minSnr p \<longrightarrow>
      startMolecule p r st = st\<lparr>holeNumber := Some (HoleNumber r), skipZmw := True,
                                 poorSNR := poorSNR st + 1\<rparr>) \<and>
   ((\<forall>wl. whitelist p = Some wl \<longrightarrow> wl (MovieName r) (HoleNumber r)) \<and>
    VerifyChemistry (ReadGroup r) \<and> minSnr p \<le> min_element (SignalToNoise r) \<longrightarrow>
      startMolecule p r st =
        st\<lparr>holeNumber := Some (HoleNumber r), skipZmw := False,
           chunk := chunk st @
             [\<lparr>ChunkId = \<lparr>IdMovieName = movieNames st (MovieName r),
                          IdHoleNumber = HoleNumber r, IdInterval = None\<rparr>,
               Reads = [], ChunkSNR = SignalToNoise r\<rparr>]\<rparr>) \<and>
   min_element (SignalToNoise r) =
     Min {snrA (SignalToNoise r), snrC (SignalToNoise r),
          snrG (SignalToNoise r), snrT (SignalToNoise r)} \<and>
   poorSNR (assemble p files) =
     length (filter (\<lambda>g. failsSNR p (hd g)) (concat (map molecules files)))"
proof -
  have b: "isBoundary st0 r \<longrightarrow> boundaryStep p st0 r =
            startMolecule p r (submitFull (discardShort p (registerMovie (MovieName r) st0)))"
    by (simp add: boundary_is_startMolecule)
  have w: "(\<exists>wl. whitelist p = Some wl \<and> \<not> wl (MovieName r) (HoleNumber r)) \<longrightarrow>
            startMolecule p r st = st\<lparr>holeNumber := Some (HoleNumber r), skipZmw := True\<rparr>"
    by (auto simp: startMolecule_def Let_def)
  have c: "(\<forall>wl. whitelist p = Some wl \<longrightarrow> wl (MovieName r) (HoleNumber r)) \<and>
          \<not> VerifyChemistry (ReadGroup r) \<longrightarrow>
            startMolecule p r st = st\<lparr>holeNumber := Some (HoleNumber r), skipZmw := True\<rparr>"
    by (auto simp: startMolecule_def Let_def split: option.splits)
  have n: "(\<forall>wl. whitelist p = Some wl \<longrightarrow> wl (MovieName r) (HoleNumber r)) \<and>
          VerifyChemistry (ReadGroup r) \<and> min_element (SignalToNoise r) < minSnr p \<longrightarrow>
            startMolecule p r st = st\<lparr>holeNumber := Some (HoleNumber r), skipZmw := True,
                                       poorSNR := poorSNR st + 1\<rparr>"
    by (auto simp: startMolecule_def Let_def split: option.splits)
  have a: "(\<forall>wl. whitelist p = Some wl \<longrightarrow> wl (MovieName r) (HoleNumber r)) \<and>
          VerifyChemistry (ReadGroup r) \<and> minSnr p \<le> min_element (SignalToNoise r) \<longrightarrow>
            startMolecule p r st =
              st\<lparr>holeNumber := Some (HoleNumber r), skipZmw := False,
                 chunk := chunk st @
                   [\<lparr>ChunkId = \<lparr>IdMovieName = movieNames st (MovieName r),
                                IdHoleNumber = HoleNumber r, IdInterval = None\<rparr>,
                     Reads = [], ChunkSNR = SignalToNoise r\<rparr>]\<rparr>"
    by (auto simp: startMolecule_def Let_def split: option.splits)
  have g: "poorSNR (assemble p files) =
     length (filter (\<lambda>g. failsSNR p (hd g)) (concat (map molecules files)))"
    using assemble_by_molecules [of p files] by simp
  from b w c n a g min_element_Min [of "SignalToNoise r"] show ?thesis by blast
qed

theorem molecule_filters_in_order_witness:
  "whitelist (exParams\<lparr>whitelist := Some (\<lambda>m h. h = 7)\<rparr>) = Some (\<lambda>m h. h = 7) \<and>
   min_element (SignalToNoise (exRead ''m'' 5 p6c4 2 800)) < minSnr exParams \<and>
   skipZmw (startMolecule (exParams\<lparr>whitelist := Some (\<lambda>m h. h = 7)\<rparr>)
      (exRead ''m'' 5 p6c4 2 800) initState) \<and>
   poorSNR (startMolecule (exParams\<lparr>whitelist := Some (\<lambda>m h. h = 7)\<rparr>)
      (exRead ''m'' 5 p6c4 2 800) initState) = 0 \<and>
   \<not> VerifyChemistry (ReadGroup (exRead ''m'' 5 otherChemistry 2 800)) \<and>
   skipZmw (startMolecule exParams (exRead ''m'' 5 otherChemistry 2 800) initState) \<and>
   poorSNR (startMolecule exParams (exRead ''m'' 5 otherChemistry 2 800) initState) = 0 \<and>
   VerifyChemistry (ReadGroup (exRead ''m'' 5 p6c4 2 800)) \<and>
   skipZmw (startMolecule exParams (exRead ''m'' 5 p6c4 2 800) initState) \<and>
   poorSNR (startMolecule exParams (exRead ''m'' 5 p6c4 2 800) initState) = 1 \<and>
   chunk (startMolecule exParams (exRead ''m'' 5 p6c4 2 800) initState) = [] \<and>
   minSnr exParams \<le> min_element (SignalToNoise (exRead ''m'' 5 p6c4 4 800)) \<and>
   \<not> skipZmw (startMolecule exParams (exRead ''m'' 5 p6c4 4 800) initState) \<and>
   poorSNR (startMolecule exParams (exRead ''m'' 5 p6c4 4 800) initState) = 0 \<and>
   length (chunk (startMolecule exParams (exRead ''m'' 5 p6c4 4 800) initState)) = 1 \<and>
   poorSNR (assemble exParams
     [[exRead ''m'' 5 p6c4 2 800, exRead ''m'' 5 p6c4 2 800, exRead ''m'' 6 otherChemistry 2 800,
       exRead ''m'' 7 p6c4 3 800]]) = 2"
  using molecule_filters_in_order [of initState "exRead ''m'' 5 p6c4 2 800"
      "exParams\<lparr>whitelist := Some (\<lambda>m h. h = 7)\<rparr>" initState "[]"]
    molecule_filters_in_order [of initState "exRead ''m'' 5 otherChemistry 2 800" exParams
      initState "[]"]
    molecule_filters_in_order [of initState "exRead ''m'' 5 p6c4 2 800" exParams initState "[]"]
    molecule_filters_in_order [of initState "exRead ''m'' 5 p6c4 4 800" exParams initState
      "[[exRead ''m'' 5 p6c4 2 800, exRead ''m'' 5 p6c4 2 800,
         exRead ''m'' 6 otherChemistry 2 800, exRead ''m'' 7 p6c4 3 800]]"]
  by (simp add: ex_defs step_defs failsSNR_def)

subsection \<open>The per-read filter\<close>

text \<open>
  Claim C6, as stated: a read of a molecule that is not skipped is appended if and only if
  its accuracy is at least 1000 times the value of \<open>--minReadScore\<close>. The threshold of
  line 323 is computed in single precision: with \<open>--minReadScore\<close> 0.507 it is
  507.000030517578125, and a read of accuracy 507, which is 1000 times 0.507, is dropped.
\<close>

theorem read_admission_counterexample:
  "1000 * MinReadScore (exOptions\<lparr>MinReadScore := 507 / 1000\<rparr>) \<le>
     ReadAccuracy (exRead ''m'' 1 p6c4 8 507) \<and>
   \<not> skipZmw (boundaryStep (loopParams (exOptions\<lparr>MinReadScore := 507 / 1000\<rparr>) 2 None)
        (loopState (loopParams (exOptions\<lparr>MinReadScore := 507 / 1000\<rparr>) 2 None) [] [])
        (exRead ''m'' 1 p6c4 8 507)) \<and>
   map Reads (chunk (processRead (loopParams (exOptions\<lparr>MinReadScore := 507 / 1000\<rparr>) 2 None)
        (loopState (loopParams (exOptions\<lparr>MinReadScore := 507 / 1000\<rparr>) 2 None) [] [])
        (exRead ''m'' 1 p6c4 8 507))) = [[]]"
  by (simp add: ex_defs step_defs)

text \<open>
  Claim C6, amended: a read of a molecule that is not skipped is appended to the open chunk
  if and only if its accuracy is at least the threshold of line 323, which is the
  single-precision product of 1000 and the single-precision value of \<open>--minReadScore\<close> (it
  can lie above 1000 times the option); whether the read is appended or dropped, nothing
  else of the state changes (the molecule stays open and is not skipped, no counter moves,
  nothing is submitted); and over a run of reads of one molecule the chunk receives the
  admitted reads in the order of the stream.
\<close>

theorem read_admission:
  assumes "p = loopParams options mp wl" and "st = loopState p files reads"
  shows "(\<not> skipZmw (boundaryStep p st r) \<longrightarrow>
           chunk (boundaryStep p st r) = [hd (chunk (boundaryStep p st r))] \<and>
           processRead p st r = (boundaryStep p st r)
             \<lparr>chunk := [(hd (chunk (boundaryStep p st r)))
                \<lparr>Reads := Reads (hd (chunk (boundaryStep p st r))) @
                   (if binary32 (1000 * binary32 (MinReadScore options)) \<le> ReadAccuracy r
                    then [makeSubread (boundaryStep p st r) r] else [])\<rparr>]\<rparr>) \<and>
         (holeNumber st = Some h \<and> \<not> skipZmw st \<and> (\<forall>x \<in> set rs. HoleNumber x = h) \<longrightarrow>
           chunk (loopState p files (reads @ rs)) =
             [(hd (chunk st))\<lparr>Reads := Reads (hd (chunk st)) @
                map (\<lambda>x. makeSubread (registerMovie (MovieName x) st) x)
                  (filter (\<lambda>x. binary32 (1000 * binary32 (MinReadScore options)) \<le>
                               ReadAccuracy x) rs)\<rparr>])"
proof -
  have i: "inv p st" using assms(2) by (simp add: inv_loopState)
  have m: "minReadScore p = binary32 (1000 * binary32 (MinReadScore options))"
    using assms(1) by (simp add: loopParams_def)
  have a: "\<not> skipZmw (boundaryStep p st r) \<Longrightarrow>
           chunk (boundaryStep p st r) = [hd (chunk (boundaryStep p st r))] \<and>
           processRead p st r = (boundaryStep p st r)
             \<lparr>chunk := [(hd (chunk (boundaryStep p st r)))
                \<lparr>Reads := Reads (hd (chunk (boundaryStep p st r))) @
                   (if binary32 (1000 * binary32 (MinReadScore options)) \<le> ReadAccuracy r
                    then [makeSubread (boundaryStep p st r) r] else [])\<rparr>]\<rparr>"
  proof -
    assume ns: "\<not> skipZmw (boundaryStep p st r)"
    have c: "chunk (boundaryStep p st r) = [hd (chunk (boundaryStep p st r))]"
      by (rule inv_boundaryStep_chunk [OF i ns])
    show ?thesis
      using c admitRead_single [OF ns c, of p r] by (simp add: processRead_def m)
  qed
  have l: "loopState p files (reads @ rs) = foldl (processRead p) st rs"
    using assms(2) by (simp add: loopState_def)
  have b: "holeNumber st = Some h \<and> \<not> skipZmw st \<and> (\<forall>x \<in> set rs. HoleNumber x = h) \<Longrightarrow>
           chunk (loopState p files (reads @ rs)) =
             [(hd (chunk st))\<lparr>Reads := Reads (hd (chunk st)) @
                map (\<lambda>x. makeSubread (registerMovie (MovieName x) st) x)
                  (filter (\<lambda>x. binary32 (1000 * binary32 (MinReadScore options)) \<le>
                               ReadAccuracy x) rs)\<rparr>]"
    using same_hole_run [OF i, of h rs] by (simp add: l m)
  from a b show ?thesis by blast
qed

theorem read_admission_witness:
  "exParams = loopParams exOptions 2 None \<and>
   binary32 (1000 * binary32 (MinReadScore exOptions)) = 750 \<and>
   \<not> skipZmw (boundaryStep exParams (loopState exParams [] [exRead ''m'' 1 p6c4 8 800])
        (exRead ''m'' 1 p6c4 8 700)) \<and>
   map SubreadAccuracy (Reads (hd (chunk (processRead exParams
        (loopState exParams [] [exRead ''m'' 1 p6c4 8 800]) (exRead ''m'' 1 p6c4 8 700))))) = [800] \<and>
   holeNumber (loopState exParams [] [exRead ''m'' 1 p6c4 8 800]) = Some 1 \<and>
   \<not> skipZmw (loopState exParams [] [exRead ''m'' 1 p6c4 8 800]) \<and>
   map SubreadAccuracy (Reads (hd (chunk (loopState exParams []
        ([exRead ''m'' 1 p6c4 8 800] @
         [exRead ''m'' 1 p6c4 8 700, exRead ''m'' 1 p6c4 8 900, exRead ''m'' 1 p6c4 8 750]))))) =
     [800, 900, 750] \<and>
   binary32 (1000 * binary32 (MinReadScore (exOptions\<lparr>MinReadScore := 4 / 5\<rparr>))) = 800 \<and>
   map SubreadAccuracy (Reads (hd (chunk (processRead
        (loopParams (exOptions\<lparr>MinReadScore := 4 / 5\<rparr>) 2 None)
        (loopState (loopParams (exOptions\<lparr>MinReadScore := 4 / 5\<rparr>) 2 None) [] [])
        (exRead ''m'' 1 p6c4 8 800))))) = [800]"
  using read_admission [of exParams exOptions 2 None "loopState exParams [] [exRead ''m'' 1 p6c4 8 800]"
      "[]" "[exRead ''m'' 1 p6c4 8 800]" "exRead ''m'' 1 p6c4 8 700" 1
      "[exRead ''m'' 1 p6c4 8 700, exRead ''m'' 1 p6c4 8 900, exRead ''m'' 1 p6c4 8 750]"]
    read_admission [of "loopParams (exOptions\<lparr>MinReadScore := 4 / 5\<rparr>) 2 None"
      "exOptions\<lparr>MinReadScore := 4 / 5\<rparr>" 2 None
      "loopState (loopParams (exOptions\<lparr>MinReadScore := 4 / 5\<rparr>) 2 None) [] []" "[]" "[]"
      "exRead ''m'' 1 p6c4 8 800" 1 "[]"]
  by (simp add: ex_defs step_defs makeSubread_def)

subsection \<open>File transitions\<close>

text \<open>
  Claim C10: \<open>holeNumber\<close> and \<open>skipZmw\<close> are initialised anew for each input file, so the
  first read of a file takes the boundary branch even when its hole number is the one the
  previous file ended with: the chunk left open by the previous file is checked against
  \<open>MinPasses\<close> and counted or submitted on its own, the filters run again on the first read
  of the new file, and what follows goes to a fresh chunk with no reads, or is skipped.
\<close>

theorem file_transition_forces_boundary:
  assumes "st = loopState p files reads"
  shows "isBoundary (enterFile st) r \<and>
         loopState p (files @ [reads]) (r # rs) =
           foldl (processRead p) (processRead p (enterFile st) r) rs \<and>
         boundaryStep p (enterFile st) r =
           startMolecule p r
             (submitFull (discardShort p (registerMovie (MovieName r) (enterFile st)))) \<and>
         tooFewPasses (processRead p (enterFile st) r) =
           tooFewPasses st + length (filter (\<lambda>c. length (Reads c) < MinPasses p) (chunk st)) \<and>
         submitted (processRead p (enterFile st) r) =
           submitted st @ map (\<lambda>c. [c]) (filter (\<lambda>c. MinPasses p \<le> length (Reads c)) (chunk st)) \<and>
         chunk (boundaryStep p (enterFile st) r) =
           (if skipZmw (boundaryStep p (enterFile st) r) then []
            else [\<lparr>ChunkId = \<lparr>IdMovieName = Some (MovieName r), IdHoleNumber = HoleNumber r,
                              IdInterval = None\<rparr>,
                   Reads = [], ChunkSNR = SignalToNoise r\<rparr>])"
proof -
  have i: "inv p st" using assms by (simp add: inv_loopState)
  have ie: "inv p (enterFile st)" by (rule inv_enterFile [OF i])
  have b: "isBoundary (enterFile st) r" by (simp add: isBoundary_def enterFile_def)
  have l: "loopState p (files @ [reads]) (r # rs) =
           foldl (processRead p) (processRead p (enterFile st) r) rs"
    using assms by (simp add: loopState_def processFiles_def processFile_def)
  have c: "chunk (boundaryStep p (enterFile st) r) =
           (if skipZmw (boundaryStep p (enterFile st) r) then []
            else [\<lparr>ChunkId = \<lparr>IdMovieName = Some (MovieName r), IdHoleNumber = HoleNumber r,
                              IdInterval = None\<rparr>,
                   Reads = [], ChunkSNR = SignalToNoise r\<rparr>])"
    using chunk_cases [OF ie] ie
    apply (simp only: boundary_is_startMolecule [OF b])
    apply (auto simp: inv_def enterFile_def registerMovie_def discardShort_def submitFull_def
        chunkSize_def startMolecule_def Let_def split: option.splits)
    done
  show ?thesis
    using b l c boundary_is_startMolecule [OF b, of p] boundary_counts [OF ie b, of ]
    by (simp add: enterFile_def)
qed

theorem file_transition_forces_boundary_witness:
  "holeNumber (loopState exParams [] [exRead ''m'' 1 p6c4 8 800, exRead ''m'' 1 p6c4 8 810]) =
     Some (HoleNumber (exRead ''m'' 1 p6c4 8 820)) \<and>
   isBoundary (enterFile (loopState exParams [] [exRead ''m'' 1 p6c4 8 800, exRead ''m'' 1 p6c4 8 810]))
     (exRead ''m'' 1 p6c4 8 820) \<and>
   map (map (\<lambda>c. map SubreadAccuracy (Reads c)))
     (submitted (processRead exParams
        (enterFile (loopState exParams [] [exRead ''m'' 1 p6c4 8 800, exRead ''m'' 1 p6c4 8 810]))
        (exRead ''m'' 1 p6c4 8 820))) = [[[800, 810]]] \<and>
   map (map (\<lambda>c. map SubreadAccuracy (Reads c)))
     (submitted (assemble exParams
        [[exRead ''m'' 1 p6c4 8 800, exRead ''m'' 1 p6c4 8 810],
         [exRead ''m'' 1 p6c4 8 820, exRead ''m'' 1 p6c4 8 830]])) = [[[800, 810]], [[820, 830]]] \<and>
   map (map (\<lambda>c. map SubreadAccuracy (Reads c)))
     (submitted (assemble exParams
        [[exRead ''m'' 1 p6c4 8 800, exRead ''m'' 1 p6c4 8 810,
          exRead ''m'' 1 p6c4 8 820, exRead ''m'' 1 p6c4 8 830]])) = [[[800, 810, 820, 830]]]"
  using file_transition_forces_boundary [of
      "loopState exParams [] [exRead ''m'' 1 p6c4 8 800, exRead ''m'' 1 p6c4 8 810]" exParams "[]"
      "[exRead ''m'' 1 p6c4 8 800, exRead ''m'' 1 p6c4 8 810]" "exRead ''m'' 1 p6c4 8 820"
      "[exRead ''m'' 1 p6c4 8 830]"]
  by (simp add: ex_defs step_defs makeSubread_def)

section \<open>Properties of the work queue\<close>

lemma queueInv_new: "queueInv f (newQueue b)"
  by (simp add: queueInv_def newQueue_def)

lemma map_fst_update:
  "i < length ps \<Longrightarrow> map (\<lambda>h. f (fst h)) (ps[i := (fst (ps ! i), d)]) = map (\<lambda>h. f (fst h)) ps"
  by (simp add: map_update list_update_same_conv)

lemma queueInv_step:
  assumes "queueInv f q" and "step f q a = Some q'"
  shows "queueInv f q'"
proof (cases a)
  case (Submit x)
  with assms show ?thesis by (auto simp: queueInv_def split: if_splits)
next
  case (Complete i)
  with assms show ?thesis
    by (auto simp: queueInv_def map_fst_update split: if_splits)
next
  case Consume
  with assms show ?thesis
    by (cases "pending q") (auto simp: queueInv_def split: if_splits)
next
  case Finalize
  with assms show ?thesis by (auto simp: queueInv_def)
qed

lemma queueInv_run:
  "queueInv f q \<Longrightarrow> run f q as = Some q' \<Longrightarrow> queueInv f q'"
proof (induction as arbitrary: q)
  case Nil
  then show ?case by simp
next
  case (Cons a as)
  then show ?case
    by (cases "step f q a") (auto dest: queueInv_step)
qed

lemma run_drainSchedule:
  assumes "pending q = ps"
  shows "run f q (drainSchedule ps) =
     Some (q\<lparr>pending := [], delivered := delivered q @ map (\<lambda>h. f (fst h)) ps,
              isFinalized := True, exhausted := True\<rparr>)"
  using assms
proof (induction ps arbitrary: q)
  case Nil
  then show ?case by simp
next
  case (Cons h rest)
  obtain x d where h: "h = (x, d)" by (cases h)
  show ?case
  proof (cases d)
    case True
    let ?q1 = "q\<lparr>pending := rest, delivered := delivered q @ [f x]\<rparr>"
    have s: "step f q Consume = Some ?q1" using Cons.prems h True by simp
    have "pending ?q1 = rest" by simp
    from Cons.IH [OF this] show ?thesis using s h True by simp
  next
    case False
    let ?q0 = "q\<lparr>pending := (x, True) # rest\<rparr>"
    let ?q1 = "?q0\<lparr>pending := rest, delivered := delivered q @ [f x]\<rparr>"
    have c: "step f q (Complete 0) = Some ?q0" using Cons.prems h False by simp
    have s: "step f ?q0 Consume = Some ?q1" by simp
    have "pending ?q1 = rest" by simp
    from Cons.IH [OF this] show ?thesis using c s h False by simp
  qed
qed

lemma submissions_step:
  "step f q a = Some q' \<Longrightarrow> submissions q' = submissions q @ tasksOf [a]"
  by (cases a) (auto split: if_splits list.splits)

lemma tasksOf_Cons: "tasksOf (a # as) = tasksOf [a] @ tasksOf as"
  by (cases a) simp_all

lemma submissions_run:
  "run f q as = Some q' \<Longrightarrow> submissions q' = submissions q @ tasksOf as"
proof (induction as arbitrary: q)
  case Nil
  then show ?case by simp
next
  case (Cons a as)
  then obtain q1 where s: "step f q a = Some q1" and r: "run f q1 as = Some q'"
    by (cases "step f q a") auto
  from Cons.IH [OF r] submissions_step [OF s] show ?case
    by (simp add: tasksOf_Cons [of a as])
qed

lemma tasksOf_producerView: "tasksOf (producerView as) = tasksOf as"
  unfolding producerView_def
proof (induction as)
  case Nil
  show ?case by simp
next
  case (Cons a as)
  then show ?case by (cases a) simp_all
qed

lemma tasksOf_Submits: "tasksOf (map Submit xs @ [Finalize]) = xs"
  by (induction xs) simp_all

lemma tasksOf_append: "tasksOf (as @ bs) = tasksOf as @ tasksOf bs"
proof (induction as)
  case Nil
  show ?case by simp
next
  case (Cons a as)
  then show ?case by (cases a) simp_all
qed

lemma tasksOf_drainSchedule: "tasksOf (drainSchedule ps) = []"
  by (induction ps) (simp_all add: tasksOf_append)

lemma run_append:
  "run f q as = Some q' \<Longrightarrow> run f q (as @ bs) = run f q' bs"
  by (induction as arbitrary: q) (auto split: option.splits)

text \<open>
  Claim C2: whatever the interleaving of submissions, completions and consumptions (a
  worker may complete any pending handle at any time), the results handed to the consumer
  are the results of the tasks the schedule submits, in the order in which it submits
  them. For every schedule the queue can run: the delivered results followed by those
  still queued are the results of the submitted tasks \<open>tasksOf schedule\<close> in order; when
  \<open>Consume\<close> has returned false, all of them have been delivered; and the schedule can be
  continued, without a further submission, to a run that delivers the results of all
  submitted tasks, in the order 1..N, and ends with \<open>Consume\<close> returning false.
\<close>

theorem consume_in_submission_order:
  assumes "run f (newQueue b) schedule = Some q"
  shows "delivered q @ map (\<lambda>h. f (fst h)) (pending q) = map f (tasksOf schedule) \<and>
         (exhausted q \<longrightarrow> delivered q = map f (tasksOf schedule)) \<and>
         (\<exists>q'. run f (newQueue b) (schedule @ drainSchedule (pending q)) = Some q' \<and>
               exhausted q' \<and>
               tasksOf (schedule @ drainSchedule (pending q)) = tasksOf schedule \<and>
               delivered q' = map f (tasksOf schedule))"
proof -
  have s: "submissions q = tasksOf schedule"
    using submissions_run [OF assms] by (simp add: newQueue_def)
  have i: "queueInv f q" by (rule queueInv_run [OF queueInv_new assms])
  then have a: "delivered q @ map (\<lambda>h. f (fst h)) (pending q) = map f (tasksOf schedule)"
    by (simp add: queueInv_def s)
  from i have b: "exhausted q \<longrightarrow> delivered q = map f (tasksOf schedule)"
    by (auto simp: queueInv_def s)
  have d: "run f q (drainSchedule (pending q)) =
     Some (q\<lparr>pending := [], delivered := delivered q @ map (\<lambda>h. f (fst h)) (pending q),
              isFinalized := True, exhausted := True\<rparr>)"
    by (rule run_drainSchedule) simp
  have "run f (newQueue b) (schedule @ drainSchedule (pending q)) =
     Some (q\<lparr>pending := [], delivered := delivered q @ map (\<lambda>h. f (fst h)) (pending q),
              isFinalized := True, exhausted := True\<rparr>)"
    by (simp only: run_append [OF assms] d)
  with a have c: "\<exists>q'. run f (newQueue b) (schedule @ drainSchedule (pending q)) = Some q' \<and>
               exhausted q' \<and>
               tasksOf (schedule @ drainSchedule (pending q)) = tasksOf schedule \<and>
               delivered q' = map f (tasksOf schedule)"
    by (simp add: tasksOf_append tasksOf_drainSchedule)
  from a b c show ?thesis by blast
qed

theorem consume_in_submission_order_witness:
  "run (\<lambda>n. 10 * n) (newQueue 4)
     [Submit 1, Submit 2, Submit (3::nat), Complete 2, Complete 0, Consume] =
     Some \<lparr>pending = [(2, False), (3, True)], bound = 4, isFinalized = False,
       submissions = [1, 2, 3], delivered = [10::nat], exhausted = False\<rparr> \<and>
   tasksOf [Submit 1, Submit 2, Submit (3::nat), Complete 2, Complete 0, Consume] = [1, 2, 3] \<and>
   (\<exists>q'. run (\<lambda>n. 10 * n) (newQueue 4)
       ([Submit 1, Submit 2, Submit (3::nat), Complete 2, Complete 0, Consume] @
        [Complete 0, Consume, Consume, Finalize, Consume]) = Some q' \<and>
     exhausted q' \<and> delivered q' = [10, 20, 30])"
  using consume_in_submission_order [of "\<lambda>n. 10 * n" 4
      "[Submit 1, Submit 2, Submit (3::nat), Complete 2, Complete 0, Consume]"
      "\<lparr>pending = [(2, False), (3, True)], bound = 4, isFinalized = False,
        submissions = [1, 2, 3], delivered = [10::nat], exhausted = False\<rparr>"]
  by (simp add: newQueue_def)

text \<open>
  In a run of the queue in which the producer submits the tasks \<open>xs\<close> and then finalizes,
  and in which the consumer has seen \<open>Consume\<close> return false, the consumer was handed the
  results of \<open>xs\<close>, in this order, whatever the workers and the interleaving.
\<close>

lemma complete_run_delivers_all:
  assumes "run f (newQueue b) schedule = Some q"
    and "producerView schedule = map Submit xs @ [Finalize]"
    and "exhausted q"
  shows "delivered q = map f xs"
proof -
  have "submissions q = tasksOf schedule"
    using submissions_run [OF assms(1)] by (simp add: newQueue_def)
  also have "\<dots> = tasksOf (producerView schedule)" by (simp add: tasksOf_producerView)
  also have "\<dots> = xs" by (simp add: assms(2) tasksOf_Submits)
  finally have s: "submissions q = xs" .
  have "queueInv f q" by (rule queueInv_run [OF queueInv_new assms(1)])
  with assms(3) s show ?thesis by (auto simp: queueInv_def)
qed

section \<open>Properties of the report and of the shutdown\<close>

lemmas report_defs = WriteResultsReport_def writeRow_def Let_def

text \<open>
  Claim C9: \<open>WriteResultsReport\<close> sets the stream to fixed notation with two decimals and
  then writes exactly eight lines, for Success, PoorSNR, NoSubreads, TooShort,
  TooFewPasses, TooManyUnusable, NonConvergent and PoorQuality in this order; each line
  carries the label, the count and the percentage \<open>100.0 * count / total\<close>, which is 100
  times the count divided by the total whenever the total is positive.
\<close>

theorem report_rows:
  "rows (WriteResultsReport report counts) = rows report @
     [\<lparr>rowLabel = ''Success -- CCS generated'', rowCount = Success counts,
       rowPercent = percent (Success counts) (Total counts),
       rowNotation = FixedFloat, rowDecimals = 2\<rparr>,
      \<lparr>rowLabel = ''Failed -- Below SNR threshold'', rowCount = PoorSNR counts,
       rowPercent = percent (PoorSNR counts) (Total counts),
       rowNotation = FixedFloat, rowDecimals = 2\<rparr>,
      \<lparr>rowLabel = ''Failed -- No usable subreads'', rowCount = NoSubreads counts,
       rowPercent = percent (NoSubreads counts) (Total counts),
       rowNotation = FixedFloat, rowDecimals = 2\<rparr>,
      \<lparr>rowLabel = ''Failed -- Insert size too small'', rowCount = TooShort counts,
       rowPercent = percent (TooShort counts) (Total counts),
       rowNotation = FixedFloat, rowDecimals = 2\<rparr>,
      \<lparr>rowLabel = ''Failed -- Not enough full passes'', rowCount = TooFewPasses counts,
       rowPercent = percent (TooFewPasses counts) (Total counts),
       rowNotation = FixedFloat, rowDecimals = 2\<rparr>,
      \<lparr>rowLabel = ''Failed -- Too many unusable subreads'', rowCount = TooManyUnusable counts,
       rowPercent = percent (TooManyUnusable counts) (Total counts),
       rowNotation = FixedFloat, rowDecimals = 2\<rparr>,
      \<lparr>rowLabel = ''Failed -- CCS did not converge'', rowCount = NonConvergent counts,
       rowPercent = percent (NonConvergent counts) (Total counts),
       rowNotation = FixedFloat, rowDecimals = 2\<rparr>,
      \<lparr>rowLabel = ''Failed -- CCS below minimum predicted accuracy'',
       rowCount = PoorQuality counts,
       rowPercent = percent (PoorQuality counts) (Total counts),
       rowNotation = FixedFloat, rowDecimals = 2\<rparr>] \<and>
   length (rows (WriteResultsReport newStream counts)) = 8 \<and>
   (0 < Total counts \<longrightarrow>
      map rowPercent (rows (WriteResultsReport newStream counts)) =
        map (\<lambda>c. Finite (100 * real c / real (Total counts)))
          [Success counts, PoorSNR counts, NoSubreads counts, TooShort counts,
           TooFewPasses counts, TooManyUnusable counts, NonConvergent counts,
           PoorQuality counts])"
proof -
  let ?out = "WriteResultsReport report counts"
  have flags: "floatFlags (writeRow l c n r) = floatFlags r \<and>
               precision (writeRow l c n r) = precision r" for l c n r
    by (simp add: writeRow_def)
  have written: "rows (writeRow l c n r) = rows r @
      [\<lparr>rowLabel = l, rowCount = c, rowPercent = percent c n,
        rowNotation = floatFlags r, rowDecimals = precision r\<rparr>]" for l c n r
    by (simp add: writeRow_def)
  have eight: "rows ?out = rows report @
     [\<lparr>rowLabel = ''Success -- CCS generated'', rowCount = Success counts,
       rowPercent = percent (Success counts) (Total counts),
       rowNotation = FixedFloat, rowDecimals = 2\<rparr>,
      \<lparr>rowLabel = ''Failed -- Below SNR threshold'', rowCount = PoorSNR counts,
       rowPercent = percent (PoorSNR counts) (Total counts),
       rowNotation = FixedFloat, rowDecimals = 2\<rparr>,
      \<lparr>rowLabel = ''Failed -- No usable subreads'', rowCount = NoSubreads counts,
       rowPercent = percent (NoSubreads counts) (Total counts),
       rowNotation = FixedFloat, rowDecimals = 2\<rparr>,
      \<lparr>rowLabel = ''Failed -- Insert size too small'', rowCount = TooShort counts,
       rowPercent = percent (TooShort counts) (Total counts),
       rowNotation = FixedFloat, rowDecimals = 2\<rparr>,
      \<lparr>rowLabel = ''Failed -- Not enough full passes'', rowCount = TooFewPasses counts,
       rowPercent = percent (TooFewPasses counts) (Total counts),
       rowNotation = FixedFloat, rowDecimals = 2\<rparr>,
      \<lparr>rowLabel = ''Failed -- Too many unusable subreads'', rowCount = TooManyUnusable counts,
       rowPercent = percent (TooManyUnusable counts) (Total counts),
       rowNotation = FixedFloat, rowDecimals = 2\<rparr>,
      \<lparr>rowLabel = ''Failed -- CCS did not converge'', rowCount = NonConvergent counts,
       rowPercent = percent (NonConvergent counts) (Total counts),
       rowNotation = FixedFloat, rowDecimals = 2\<rparr>,
      \<lparr>rowLabel = ''Failed -- CCS below minimum predicted accuracy'',
       rowCount = PoorQuality counts,
       rowPercent = percent (PoorQuality counts) (Total counts),
       rowNotation = FixedFloat, rowDecimals = 2\<rparr>]"
    by (simp add: WriteResultsReport_def Let_def written flags)
  have len: "length (rows (WriteResultsReport newStream counts)) = 8"
    by (simp add: WriteResultsReport_def Let_def written newStream_def)
  have pos: "0 < Total counts \<Longrightarrow> percent c (Total counts) =
      Finite (100 * real c / real (Total counts))" for c
    by (simp add: percent_def)
  have pct: "0 < Total counts \<longrightarrow>
      map rowPercent (rows (WriteResultsReport newStream counts)) =
        map (\<lambda>c. Finite (100 * real c / real (Total counts)))
          [Success counts, PoorSNR counts, NoSubreads counts, TooShort counts,
           TooFewPasses counts, TooManyUnusable counts, NonConvergent counts,
           PoorQuality counts]"
    by (simp add: WriteResultsReport_def Let_def written newStream_def pos)
  from eight len pct show ?thesis by blast
qed

theorem report_rows_witness:
  "0 < Total \<lparr>Success = 3, PoorSNR = 1, NoSubreads = 0, TooShort = 0, TooFewPasses = 0,
       TooManyUnusable = 0, NonConvergent = 0, PoorQuality = 0\<rparr> \<and>
   map rowCount (rows (WriteResultsReport newStream
     \<lparr>Success = 3, PoorSNR = 1, NoSubreads = 0, TooShort = 0, TooFewPasses = 0,
       TooManyUnusable = 0, NonConvergent = 0, PoorQuality = 0\<rparr>)) = [3, 1, 0, 0, 0, 0, 0, 0] \<and>
   map rowPercent (rows (WriteResultsReport newStream
     \<lparr>Success = 3, PoorSNR = 1, NoSubreads = 0, TooShort = 0, TooFewPasses = 0,
       TooManyUnusable = 0, NonConvergent = 0, PoorQuality = 0\<rparr>)) =
     [Finite 75, Finite 25, Finite 0, Finite 0, Finite 0, Finite 0, Finite 0, Finite 0]"
  using report_rows [of newStream "\<lparr>Success = 3, PoorSNR = 1, NoSubreads = 0, TooShort = 0,
       TooFewPasses = 0, TooManyUnusable = 0, NonConvergent = 0, PoorQuality = 0\<rparr>"]
  by (simp add: Total_def newStream_def percent_def)

text \<open>
  For \<open>main\<close>: when the writer thread has returned, it has been handed the results of the
  vectors \<open>main\<close> submitted, in the order of submission; so the counters it returns are a
  function of these vectors, as \<open>mainReport\<close> has it.
\<close>

lemma writer_sees_all_submissions:
  assumes "run consensus (newQueue b) schedule = Some q"
    and "producerView schedule = producerActions p files"
    and "exhausted q"
  shows "delivered q = map consensus (submitted (assemble p files))"
  using complete_run_delivers_all [OF assms(1) _ assms(3)] assms(2)
  by (simp add: producerActions_def)

text \<open>
  Claim C8: the last operation of the producer on the queue is \<open>Finalize\<close>, after every
  submission; the counters reported are those the writer thread returned with \<open>poorSNR\<close>
  added to \<open>PoorSNR\<close> and \<open>tooFewPasses\<close> added to \<open>TooFewPasses\<close>, the other six unchanged; and
  the report is written from these merged counters.
\<close>

theorem shutdown_merges_counts:
  "butlast (producerActions p files) = map Submit (submitted (assemble p files)) \<and>
   last (producerActions p files) = Finalize \<and>
   PoorSNR (reportedCounts w st) = PoorSNR w + poorSNR st \<and>
   TooFewPasses (reportedCounts w st) = TooFewPasses w + tooFewPasses st \<and>
   reportedCounts w st =
     w\<lparr>PoorSNR := PoorSNR w + poorSNR st, TooFewPasses := TooFewPasses w + tooFewPasses st\<rparr> \<and>
   mainReport writer p files =
     WriteResultsReport newStream
       (reportedCounts (writer (submitted (assemble p files))) (assemble p files)) \<and>
   map rowCount (rows (mainReport writer p files)) =
     [Success (writer (submitted (assemble p files))),
      PoorSNR (writer (submitted (assemble p files))) + poorSNR (assemble p files),
      NoSubreads (writer (submitted (assemble p files))),
      TooShort (writer (submitted (assemble p files))),
      TooFewPasses (writer (submitted (assemble p files))) + tooFewPasses (assemble p files),
      TooManyUnusable (writer (submitted (assemble p files))),
      NonConvergent (writer (submitted (assemble p files))),
      PoorQuality (writer (submitted (assemble p files)))]"
proof -
  let ?st = "assemble p files"
  let ?w = "writer (submitted ?st)"
  have queue: "butlast (producerActions p files) = map Submit (submitted ?st) \<and>
               last (producerActions p files) = Finalize"
    by (simp add: producerActions_def)
  have merged: "reportedCounts w st =
     w\<lparr>PoorSNR := PoorSNR w + poorSNR st, TooFewPasses := TooFewPasses w + tooFewPasses st\<rparr>"
    for w st
    by (simp add: reportedCounts_def)
  have report: "mainReport writer p files =
     WriteResultsReport newStream (reportedCounts ?w ?st)"
    by (simp add: mainReport_def Let_def)
  have counts: "map rowCount (rows (WriteResultsReport newStream c)) =
     [Success c, PoorSNR c, NoSubreads c, TooShort c, TooFewPasses c, TooManyUnusable c,
      NonConvergent c, PoorQuality c]" for c
    by (simp add: report_defs newStream_def)
  have row: "map rowCount (rows (mainReport writer p files)) =
     [Success ?w, PoorSNR ?w + poorSNR ?st, NoSubreads ?w, TooShort ?w,
      TooFewPasses ?w + tooFewPasses ?st, TooManyUnusable ?w, NonConvergent ?w,
      PoorQuality ?w]"
    by (simp add: report counts merged)
  from queue merged [of w st] report row show ?thesis by simp
qed

theorem shutdown_merges_counts_witness:
  "map rowCount (rows (mainReport
      (\<lambda>vs. \<lparr>Success = length vs, PoorSNR = 0, NoSubreads = 0, TooShort = 0, TooFewPasses = 0,
         TooManyUnusable = 0, NonConvergent = 0, PoorQuality = 0\<rparr>)
      exParams
      [[exRead ''m'' 1 p6c4 8 800, exRead ''m'' 1 p6c4 8 800, exRead ''m'' 2 p6c4 2 800,
        exRead ''m'' 3 p6c4 8 800]])) = [1, 1, 0, 0, 1, 0, 0, 0] \<and>
   producerActions exParams [[exRead ''m'' 2 p6c4 2 800]] = [Finalize]"
  using shutdown_merges_counts [of exParams
      "[[exRead ''m'' 1 p6c4 8 800, exRead ''m'' 1 p6c4 8 800, exRead ''m'' 2 p6c4 2 800,
        exRead ''m'' 3 p6c4 8 800]]"
      "\<lparr>Success = 0, PoorSNR = 0, NoSubreads = 0, TooShort = 0, TooFewPasses = 0,
         TooManyUnusable = 0, NonConvergent = 0, PoorQuality = 0\<rparr>" initState
      "\<lambda>vs. \<lparr>Success = length vs, PoorSNR = 0, NoSubreads = 0, TooShort = 0, TooFewPasses = 0,
         TooManyUnusable = 0, NonConvergent = 0, PoorQuality = 0\<rparr>"]
    shutdown_merges_counts [of exParams "[[exRead ''m'' 2 p6c4 2 800]]"
      "\<lparr>Success = 0, PoorSNR = 0, NoSubreads = 0, TooShort = 0, TooFewPasses = 0,
         TooManyUnusable = 0, NonConvergent = 0, PoorQuality = 0\<rparr>" initState
      "\<lambda>vs. \<lparr>Success = length vs, PoorSNR = 0, NoSubreads = 0, TooShort = 0, TooFewPasses = 0,
         TooManyUnusable = 0, NonConvergent = 0, PoorQuality = 0\<rparr>"]
  by (simp add: ex_defs step_defs makeSubread_def producerActions_def mainReport_def
      reportedCounts_def report_defs newStream_def)

section \<open>Properties of the start-up\<close>

lemma PrepareHeader_no_output: "OutputBamCreated path \<notin> set (fst (PrepareHeader env fs))"
  by (induction fs) (auto split: prod.splits)

lemmas env_defs = exEnv_def exOptions_def startup_def

text \<open>
  Claim C5: each configuration error (\<open>--minPasses\<close> below 1, a \<open>--zmws\<close> specification that
  the constructor of \<open>Whitelist\<close> rejects, fewer than two positional arguments, an output
  file that exists without \<open>--force\<close>) ends the run with \<open>parser.error\<close> before anything has
  been done to a file; conversely, when the output BAM file is created, the run has not
  ended and none of these errors is present.
\<close>

theorem configuration_errors_before_output:
  "(MinPassesOpt options < 1 \<longrightarrow>
      startup env options files =
        ([], Some (ParserError ''option --minPasses: invalid value: must be >= 1''))) \<and>
   (MinPassesOpt options < 1 \<or>
    (Zmws options \<noteq> [] \<and> WhitelistOf env (Zmws options) = None) \<or>
    length files < 2 \<or>
    (FileExists env (hd files) \<and> \<not> ForceOutput options) \<longrightarrow>
      fst (startup env options files) = [] \<and>
      (\<exists>msg. snd (startup env options files) = Some (ParserError msg))) \<and>
   (OutputBamCreated path \<in> set (fst (startup env options files)) \<longrightarrow>
      path = hd files \<and> snd (startup env options files) = None \<and>
      1 \<le> MinPassesOpt options \<and>
      (Zmws options = [] \<or> WhitelistOf env (Zmws options) \<noteq> None) \<and>
      2 \<le> length files \<and>
      (FileExists env (hd files) \<longrightarrow> ForceOutput options))"
proof -
  have a: "MinPassesOpt options < 1 \<longrightarrow>
      startup env options files =
        ([], Some (ParserError ''option --minPasses: invalid value: must be >= 1''))"
    by (simp add: startup_def)
  have b: "MinPassesOpt options < 1 \<or>
    (Zmws options \<noteq> [] \<and> WhitelistOf env (Zmws options) = None) \<or>
    length files < 2 \<or>
    (FileExists env (hd files) \<and> \<not> ForceOutput options) \<longrightarrow>
      fst (startup env options files) = [] \<and>
      (\<exists>msg. snd (startup env options files) = Some (ParserError msg))"
    by (auto simp: startup_def)
  have c: "OutputBamCreated path \<in> set (fst (startup env options files)) \<longrightarrow>
      path = hd files \<and> snd (startup env options files) = None \<and>
      1 \<le> MinPassesOpt options \<and>
      (Zmws options = [] \<or> WhitelistOf env (Zmws options) \<noteq> None) \<and>
      2 \<le> length files \<and>
      (FileExists env (hd files) \<longrightarrow> ForceOutput options)"
    using PrepareHeader_no_output [of path env "tl files"]
    by (auto simp: startup_def Let_def split: if_splits prod.splits option.splits)
  from a b c show ?thesis by blast
qed

theorem configuration_errors_before_output_witness:
  "MinPassesOpt (exOptions\<lparr>MinPassesOpt := 0\<rparr>) < 1 \<and>
   startup exEnv (exOptions\<lparr>MinPassesOpt := 0\<rparr>) [''new.bam'', ''in.bam''] =
     ([], Some (ParserError ''option --minPasses: invalid value: must be >= 1'')) \<and>
   WhitelistOf exEnv (Zmws (exOptions\<lparr>Zmws := ''x''\<rparr>)) = None \<and>
   fst (startup exEnv (exOptions\<lparr>Zmws := ''x''\<rparr>) [''new.bam'', ''in.bam'']) = [] \<and>
   length [''new.bam''] < 2 \<and>
   startup exEnv exOptions [''new.bam''] = ([], Some (ParserError ''missing FILES...'')) \<and>
   startup exEnv exOptions [] = ([], Some (ParserError ''missing OUTPUT'')) \<and>
   FileExists exEnv (hd [''old.bam'', ''in.bam'']) \<and> \<not> ForceOutput exOptions \<and>
   fst (startup exEnv exOptions [''old.bam'', ''in.bam'']) = [] \<and>
   startup exEnv exOptions [''new.bam'', ''in.bam''] =
     ([InputOpened ''in.bam'', OutputBamCreated ''new.bam''], None) \<and>
   startup exEnv (exOptions\<lparr>ForceOutput := True\<rparr>) [''old.bam'', ''in.bam''] =
     ([InputOpened ''in.bam'', OutputBamCreated ''old.bam''], None)"
  using configuration_errors_before_output [of "exOptions\<lparr>MinPassesOpt := 0\<rparr>" exEnv
      "[''new.bam'', ''in.bam'']" "''new.bam''"]
    configuration_errors_before_output [of "exOptions\<lparr>Zmws := ''x''\<rparr>" exEnv
      "[''new.bam'', ''in.bam'']" "''new.bam''"]
    configuration_errors_before_output [of exOptions exEnv "[''new.bam'']" "''new.bam''"]
    configuration_errors_before_output [of exOptions exEnv "[''old.bam'', ''in.bam'']" "''old.bam''"]
    configuration_errors_before_output [of exOptions exEnv "[''new.bam'', ''in.bam'']" "''new.bam''"]
  by (simp add: env_defs)

end
